theory Spec2Isabelle
  imports Main
begin

text \<open>
  A shallow embedding of the training-iteration orchestration of the probcoll repository:
  the checkpoint/resume resolution and the training loop of \<open>DaggerPrediction.run\<close>,
  the iteration driver \<open>DaggerPrediction._run_itr\<close> with its rollout loop, retry loop and
  writes, the operator confirmation of \<open>ProbcollRCcar\<close>, and the RC-car dynamics.
  Exceptions are values of a sum type, loops are recursive functions, and the
  collaborators the code calls but does not define (world, agent, controller, model,
  file system, ROS) are parameters. Where a loop of the source has no bound, its model
  returns an \<open>option\<close> and \<open>None\<close> stands for a run that never returns.
\<close>

section \<open>Errors\<close>

text \<open>
  The exceptions the orchestration code can raise by itself: reading a loop variable that
  was never bound (\<open>NameError\<close>), a failed \<open>assert\<close> (\<open>AssertionError\<close>), writing
  past the end of a sample (\<open>IndexError\<close>), and in the noise factory the plain
  \<open>Exception\<close> for an unknown kind and the \<open>KeyError\<close> for a kind without parameters.
\<close>

datatype error = NameError | AssertionError | IndexError | ConfigException | KeyError

section \<open>RC-car dynamics (dynamics\_rccar.py)\<close>

text \<open>
  \<^verbatim>\<open>def evolve(self, x, u, fx=None, fu=None, f0=None): return x\<close>.
  The three optional arguments default to \<open>None\<close>.
\<close>

definition evolve :: "'x \<Rightarrow> 'u \<Rightarrow> 'a option \<Rightarrow> 'b option \<Rightarrow> 'c option \<Rightarrow> 'x" where
  "evolve x u fx fu f0 = x"

section \<open>Checkpoint/resume resolution and the training loop (DaggerPrediction.run)\<close>

text \<open>
  \<open>scan_down p n\<close> visits the indices \<open>n - 1, ..., 0\<close> in this order, as
  \<^verbatim>\<open>xrange(n-1, -1, -1)\<close> does, and stops at the first one where \<open>p\<close> holds.
\<close>

fun scan_down :: "(nat \<Rightarrow> bool) \<Rightarrow> nat \<Rightarrow> nat option" where
  "scan_down p 0 = None"
| "scan_down p (Suc n) = (if p n then Some n else scan_down p n)"

text \<open>
  One of the two \<open>for ... break\<close> loops of \<open>run\<close>. The result is the value of the loop
  variable after the loop (\<open>None\<close> when the range was empty and the variable is unbound)
  and the index at which the loop broke, if it did. On a break the variable was
  incremented first; without a break it keeps the last value of the range, which is 0.
\<close>

definition find_last :: "(nat \<Rightarrow> bool) \<Rightarrow> int \<Rightarrow> int option \<times> nat option" where
  "find_last p max_iter =
     (if max_iter \<le> 0 then (None, None)
      else case scan_down p (nat max_iter) of
             Some i \<Rightarrow> (Some (int i + 1), Some i)
           | None \<Rightarrow> (Some 0, None))"

record resume =
  model_start_itr :: int
  samples_start_itr :: int
  model_file :: "nat option"

text \<open>
  Lines 142-159 of \<open>run\<close>. \<open>ckpt i\<close> stands for
  \<^verbatim>\<open>PredictionModel.checkpoint_exists(self._itr_model_file(i, create=False))\<close> and \<open>smpl i\<close>
  for \<^verbatim>\<open>os.path.exists(self._itr_samples_file(i, create=False))\<close>. The assertion reads both
  loop variables, so an empty range ends in \<open>NameError\<close>.
\<close>

definition resolve :: "(nat \<Rightarrow> bool) \<Rightarrow> (nat \<Rightarrow> bool) \<Rightarrow> int \<Rightarrow> error + resume" where
  "resolve ckpt smpl max_iter =
     (case (find_last ckpt max_iter, find_last smpl max_iter) of
        ((Some m, mf), (Some s, sf)) \<Rightarrow>
          if m = s \<or> m = s - 1 \<or> (m = 1 \<and> s = 0)
          then Inr \<lparr>model_start_itr = m, samples_start_itr = s, model_file = mf\<rparr>
          else Inl AssertionError
      | _ \<Rightarrow> Inl NameError)"

record config =
  max_iter :: int
  planner_type :: string
  epochs :: nat
  init_epochs :: nat
  init_data :: "string list option"

text \<open>
  The calls \<open>run\<close> makes on its collaborators, in order. Model and sample files are named
  by their iteration index (\<open>_itr_model_file\<close> and \<open>_itr_samples_file\<close> are injective in
  it). \<open>init_data\<close> is the listing of the configured initial data folder, already
  restricted to the names that contain the samples extension, or \<open>None\<close> when no folder
  is configured.
\<close>

datatype event =
    Load nat
  | AddData "int list"
  | AddInitData "string list"
  | Train "int option" int nat
  | Save int
  | RunItr int

definition catchup :: "config \<Rightarrow> resume \<Rightarrow> event list" where
  "catchup cfg r =
     (let m = model_start_itr r; s = samples_start_itr r in
      if m = s - 1 \<or> (s = 0 \<and> m = 0 \<and> init_data cfg \<noteq> None)
      then [Train (if s \<le> 0 then None else Some m) m (epochs cfg)]
      else [])"

text \<open>Lines 161-188: what runs between the resolution and the training loop.\<close>

definition startup :: "config \<Rightarrow> (nat \<Rightarrow> bool) \<Rightarrow> (nat \<Rightarrow> bool) \<Rightarrow> error + (event list \<times> int)" where
  "startup cfg ckpt smpl =
     (case resolve ckpt smpl (max_iter cfg) of
        Inl e \<Rightarrow> Inl e
      | Inr r \<Rightarrow>
          Inr ((case model_file r of Some f \<Rightarrow> [Load f] | None \<Rightarrow> [])
               @ (if samples_start_itr r > 0
                  then [AddData [0 .. samples_start_itr r - 1]] else [])
               @ (case init_data cfg of Some fs \<Rightarrow> [AddInitData fs] | None \<Rightarrow> [])
               @ catchup cfg r,
               samples_start_itr r))"

text \<open>
  What follows \<open>_run_itr(itr)\<close> in the body of the training loop (lines 199-209). The
  guard \<open>itr == 0 and False\<close> is kept as written.
\<close>

definition after_itr :: "config \<Rightarrow> int \<Rightarrow> event list" where
  "after_itr cfg itr =
     (if itr = 0 \<and> False then [Save itr]
      else if planner_type cfg \<noteq> ''randomwalk''
      then [AddData [itr],
            Train (Some (itr - 1)) itr (if itr > 1 then epochs cfg else init_epochs cfg)]
      else [])"

text \<open>
  The training loop over the iterations \<open>itrs\<close>. The iteration driver is a parameter here:
  \<open>run_itr_raises itr\<close> is the exception \<open>_run_itr(itr)\<close> ends with, if any. An exception
  ends the run; the calls made so far are kept in the trace.
\<close>

fun train_loop :: "config \<Rightarrow> (int \<Rightarrow> error option) \<Rightarrow> int list \<Rightarrow> event list \<times> error option" where
  "train_loop cfg run_itr_raises [] = ([], None)"
| "train_loop cfg run_itr_raises (itr # itrs) =
     (case run_itr_raises itr of
        Some e \<Rightarrow> ([RunItr itr], Some e)
      | None \<Rightarrow>
          (case train_loop cfg run_itr_raises itrs of
             (rest, r) \<Rightarrow> (RunItr itr # after_itr cfg itr @ rest, r)))"

definition run :: "config \<Rightarrow> (nat \<Rightarrow> bool) \<Rightarrow> (nat \<Rightarrow> bool) \<Rightarrow> (int \<Rightarrow> error option)
    \<Rightarrow> event list \<times> error option" where
  "run cfg ckpt smpl run_itr_raises =
     (case startup cfg ckpt smpl of
        Inl e \<Rightarrow> ([], Some e)
      | Inr (evs, start_itr) \<Rightarrow>
          (case train_loop cfg run_itr_raises [start_itr .. max_iter cfg - 1] of
             (rest, r) \<Rightarrow> (evs @ rest, r)))"

fun is_train :: "event \<Rightarrow> bool" where
  "is_train (Train old new e) = True"
| "is_train _ = False"

text \<open>
  The resume index as the specification words it: one plus the largest index below
  \<open>n\<close> at which the artifact exists, and 0 when there is none.
\<close>

definition spec_resume_iter :: "(nat \<Rightarrow> bool) \<Rightarrow> nat \<Rightarrow> int" where
  "spec_resume_iter p n =
     (if \<exists>i<n. p i then int (Max {i. i < n \<and> p i}) + 1 else 0)"

definition consistent :: "int \<Rightarrow> int \<Rightarrow> bool" where
  "consistent m s \<longleftrightarrow> m = s \<or> m = s - 1 \<or> (m = 1 \<and> s = 0)"

text \<open>
  The on-disk state of the resume example: checkpoints at iterations 0, 1, 2 and samples
  at iterations 0, 1, 2, 3.
\<close>

definition store_ckpt :: "nat \<Rightarrow> bool" where
  "store_ckpt i \<longleftrightarrow> i \<in> {0, 1, 2}"

definition store_smp :: "nat \<Rightarrow> bool" where
  "store_smp i \<longleftrightarrow> i \<in> {0, 1, 2, 3}"

text \<open>
  Concrete inputs: a configuration with an initial data folder, three iterations,
  5 epochs per iteration and 50 initial epochs; a store whose only artifact is at
  iteration 0; the empty store; an iteration driver that always returns.
\<close>

definition cfg_boot :: config where
  "cfg_boot = \<lparr>max_iter = 3, planner_type = ''primitives'', epochs = 5, init_epochs = 50,
               init_data = Some [''init.npz'']\<rparr>"

definition only_itr0 :: "nat \<Rightarrow> bool" where
  "only_itr0 i \<longleftrightarrow> i = 0"

definition no_itr :: "nat \<Rightarrow> bool" where
  "no_itr i \<longleftrightarrow> False"

definition never_raises :: "int \<Rightarrow> error option" where
  "never_raises itr = None"


section \<open>The hardware quality confirmation (ProbcollRCcar)\<close>

text \<open>
  What one pass of the wait loop of \<open>_ros_is_good_rollout\<close> observes: the value of
  \<^verbatim>\<open>rospy.is_shutdown()\<close> in the loop condition and the truth values of the two
  \<^verbatim>\<open>callback.get()\<close> results read in the body. The environment is the sequence of these
  observations, indexed by the pass. The two \<open>get()\<close> calls before the loop discard
  their results.
\<close>

record poll =
  is_shutdown :: bool
  good_rollout :: bool
  bad_rollout :: bool

text \<open>The argument of \<^verbatim>\<open>rospy.sleep(0.1)\<close>, in milliseconds.\<close>

definition sleep_ms :: nat where
  "sleep_ms = 100"

text \<open>
  The loop from its pass \<open>n\<close> on, after having slept \<open>slept\<close> milliseconds. It returns the
  value the function returns (\<open>Some True\<close>, \<open>Some False\<close>, or \<open>None\<close> for the implicit
  \<open>return None\<close> after the loop) and the time slept. The loop may run forever: the
  result is then \<open>None\<close> at the outer level.
\<close>

partial_function (option) ros_poll :: "(nat \<Rightarrow> poll) \<Rightarrow> nat \<Rightarrow> nat \<Rightarrow> (bool option \<times> nat) option" where
  "ros_poll env n slept =
     (if is_shutdown (env n) then Some (None, slept)
      else if good_rollout (env n) \<and> \<not> bad_rollout (env n) then Some (Some True, slept)
      else if bad_rollout (env n) \<and> \<not> good_rollout (env n) then Some (Some False, slept)
      else ros_poll env (Suc n) (slept + sleep_ms))"

definition ros_is_good_rollout :: "(nat \<Rightarrow> poll) \<Rightarrow> (bool option \<times> nat) option" where
  "ros_is_good_rollout env = ros_poll env 0 0"

text \<open>
  \<open>_is_good_rollout\<close> of the RC car (lines 83-89): in simulation every rollout is good;
  on hardware the car is stopped, the operator is asked, and what the wait returns is
  returned as it is.
\<close>

definition rccar_is_good_rollout :: "bool \<Rightarrow> (nat \<Rightarrow> poll) \<Rightarrow> (bool option \<times> nat) option" where
  "rccar_is_good_rollout sim env = (if sim then Some (Some True, 0) else ros_is_good_rollout env)"

declare ros_poll.simps [code]

text \<open>
  The truth value of what the gate returns, as \<^verbatim>\<open>not\<close> and \<^verbatim>\<open>if\<close> take it: \<open>None\<close>
  counts as false.
\<close>

definition truthy :: "bool option \<Rightarrow> bool" where
  "truthy v = (case v of Some b \<Rightarrow> b | None \<Rightarrow> False)"

text \<open>Exactly one of the two signals is asserted.\<close>

definition decided :: "poll \<Rightarrow> bool" where
  "decided p \<longleftrightarrow> (good_rollout p \<and> \<not> bad_rollout p) \<or> (bad_rollout p \<and> \<not> good_rollout p)"

text \<open>
  Two environments: both signals at pass 0, none at pass 1, "accepted" alone at pass 2;
  and both signals at pass 0, shutdown at pass 1.
\<close>

definition env_accept :: "nat \<Rightarrow> poll" where
  "env_accept i = \<lparr>is_shutdown = False, good_rollout = (i = 0 \<or> i = 2), bad_rollout = (i = 0)\<rparr>"

definition env_shutdown :: "nat \<Rightarrow> poll" where
  "env_shutdown i = \<lparr>is_shutdown = (i = 1), good_rollout = True, bad_rollout = (i = 0)\<rparr>"


section \<open>Control noise (DaggerPrediction.\_create\_control\_noise)\<close>

text \<open>
  The noise classes the factory chooses from. The rollout compares its noise object with
  \<open>False\<close> (\<^verbatim>\<open>control_noise is False\<close>), so the value handed to the rollout is either that
  Python value or a noise object.
\<close>

datatype noise = ZeroNoise | GaussianNoise | UniformNoise | OUNoise | SmoothedGaussianNoise

datatype noise_arg = NoiseFalse | NoiseObj noise

text \<open>\<^verbatim>\<open>str.lower()\<close> on ASCII letters.\<close>

definition lower_char :: "char \<Rightarrow> char" where
  "lower_char c =
     (let n = (of_char c :: nat) in if 65 \<le> n \<and> n \<le> 90 then char_of (n + 32) else c)"

definition lower :: "string \<Rightarrow> string" where
  "lower s = map lower_char s"

text \<open>
  Lines 298-311: the choice of the noise class. The first three kinds are compared as
  they are, the last two after lower-casing; any other kind raises.
\<close>

definition noise_class :: "string \<Rightarrow> error + noise" where
  "noise_class ty =
     (if ty = ''zero'' then Inr ZeroNoise
      else if ty = ''gaussian'' then Inr GaussianNoise
      else if ty = ''uniform'' then Inr UniformNoise
      else if lower ty = ''ou'' then Inr OUNoise
      else if lower ty = ''smoothedgaussian'' then Inr SmoothedGaussianNoise
      else Inl ConfigException)"

text \<open>
  \<open>_create_control_noise\<close>, with line 313: the parameters of the kind are looked up
  under the kind as it is written, \<^verbatim>\<open>cn_params[cn_params['type']]\<close>, so a kind whose
  parameters are filed under another spelling raises \<open>KeyError\<close>. \<open>keys\<close> are the keys
  of \<open>cn_params\<close> that hold parameters. The constructor of the class is taken to return.
\<close>

definition create_control_noise :: "string \<Rightarrow> string list \<Rightarrow> error + noise" where
  "create_control_noise ty keys =
     (case noise_class ty of
        Inl e \<Rightarrow> Inl e
      | Inr noise \<Rightarrow> if ty \<in> set keys then Inr noise else Inl KeyError)"

section \<open>Trajectory samples\<close>

text \<open>
  Modelled from the spec: the class \<open>Sample\<close> (\<open>state_info/sample.py\<close>) is not among the
  sources. A sample is a sequence of per-timestep records holding state, control and
  observation, here three lists of the same length \<open>T\<close>. A fresh sample holds a fill
  value at every timestep; \<open>set_X\<close>, \<open>set_U\<close>, \<open>set_O\<close> write one timestep, \<open>get_X\<close>
  reads one, and \<open>match(slice(0, n))\<close> keeps the first \<open>n\<close> timesteps.
\<close>

record ('x, 'u, 'o) sample =
  sX :: "'x list"
  sU :: "'u list"
  sO :: "'o list"

definition new_sample :: "'x \<Rightarrow> 'u \<Rightarrow> 'o \<Rightarrow> nat \<Rightarrow> ('x, 'u, 'o) sample" where
  "new_sample fx fu fo T = \<lparr>sX = replicate T fx, sU = replicate T fu, sO = replicate T fo\<rparr>"

definition set_X :: "'x \<Rightarrow> nat \<Rightarrow> ('x, 'u, 'o) sample \<Rightarrow> ('x, 'u, 'o) sample" where
  "set_X x t s = s\<lparr>sX := (sX s)[t := x]\<rparr>"

definition set_U :: "'u \<Rightarrow> nat \<Rightarrow> ('x, 'u, 'o) sample \<Rightarrow> ('x, 'u, 'o) sample" where
  "set_U u t s = s\<lparr>sU := (sU s)[t := u]\<rparr>"

definition set_O :: "'o \<Rightarrow> nat \<Rightarrow> ('x, 'u, 'o) sample \<Rightarrow> ('x, 'u, 'o) sample" where
  "set_O ob t s = s\<lparr>sO := (sO s)[t := ob]\<rparr>"

definition get_X :: "('x, 'u, 'o) sample \<Rightarrow> nat \<Rightarrow> 'x" where
  "get_X s t = sX s ! t"

definition match_upto :: "nat \<Rightarrow> ('x, 'u, 'o) sample \<Rightarrow> ('x, 'u, 'o) sample" where
  "match_upto n s = \<lparr>sX = take n (sX s), sU = take n (sU s), sO = take n (sO s)\<rparr>"

section \<open>Collaborators of the iteration driver\<close>

text \<open>
  Everything \<open>_run_itr\<close> calls and does not define: the configuration values it reads
  (\<open>T\<close>, \<open>label_with_noise\<close>, the noise kind and the keys under which noise
  parameters are filed), the world, the agent and its policy, the
  dynamics, the conditions provider, the abstract methods of the class and the finiteness
  test of a sample. The collaborators are stateful (a world, a planner that replans,
  noise generators, an operator); their joint state is \<open>'w\<close>, passed to every call and
  returned by those that may change it. \<open>sample_policy env x noise w\<close> stands for
  \<^verbatim>\<open>self.agent.sample_policy(x, mpc_policy, noise=noise, T=1)\<close> followed by
  \<^verbatim>\<open>get_U(t=0)\<close> and \<^verbatim>\<open>get_O(t=0)\<close>; \<open>has_curr_traj\<close> is
  \<^verbatim>\<open>hasattr(mpc_policy, '_curr_traj')\<close>. The hooks \<open>update_world\<close> and
  \<open>update_visualization\<close> are given the sample to read (the RC car's \<open>_update_world\<close>
  returns at once). The collaborators are taken to return; an exception of theirs would
  leave \<open>_run_itr\<close> at the call.
\<close>

record ('x, 'u, 'o, 'i, 'w) collab =
  horizon :: nat
  label_with_noise :: bool
  cn_type :: string
  cn_keys :: "string list"
  fill_X :: 'x
  fill_U :: 'u
  fill_O :: 'o
  update_world :: "('x, 'u, 'o) sample \<Rightarrow> nat \<Rightarrow> 'w \<Rightarrow> 'w"
  sample_policy :: "'x \<Rightarrow> noise_arg \<Rightarrow> 'w \<Rightarrow> ('u \<times> 'o) \<times> 'w"
  is_collision :: "('x, 'u, 'o) sample \<Rightarrow> nat \<Rightarrow> 'w \<Rightarrow> bool \<times> 'w"
  dyn_evolve :: "'x \<Rightarrow> 'u \<Rightarrow> 'x"
  has_curr_traj :: "'w \<Rightarrow> bool"
  update_visualization :: "('x, 'u, 'o) sample \<Rightarrow> nat \<Rightarrow> 'w \<Rightarrow> 'w"
  cond_length :: nat
  cond_repeats :: nat
  conditions_reset :: "'w \<Rightarrow> 'w"
  randomize :: "'w \<Rightarrow> bool"
  reset_world :: "nat \<Rightarrow> nat \<Rightarrow> nat \<Rightarrow> 'w \<Rightarrow> 'w"
  get_cond :: "nat \<Rightarrow> nat \<Rightarrow> 'w \<Rightarrow> 'x \<times> 'w"
  create_mpc :: "nat \<Rightarrow> 'x \<Rightarrow> 'w \<Rightarrow> 'w"
  new_noise :: "noise \<Rightarrow> 'w \<Rightarrow> 'w"
  get_world_info :: "'w \<Rightarrow> 'i \<times> 'w"
  mpc_get_info :: "'w \<Rightarrow> 'i"
  is_good_rollout :: "('x, 'u, 'o) sample \<Rightarrow> nat \<Rightarrow> 'w \<Rightarrow> bool \<times> 'w"
  isfinite :: "('x, 'u, 'o) sample \<Rightarrow> bool"

section \<open>One rollout (lines 236-271 of \_run\_itr)\<close>

text \<open>
  The state of the timestep loop: the sample under construction, the collaborators'
  state, and the timesteps at which \<open>set_X\<close> was called so far, in call order.
\<close>

record ('x, 'u, 'o, 'w) rstate =
  smp :: "('x, 'u, 'o) sample"
  wld :: 'w
  xlog :: "nat list"

text \<open>
  Lines 239-243: the world update, the read of the current state, and the query of the
  controller with the rollout's noise.
\<close>

definition query :: "('x, 'u, 'o, 'i, 'w) collab \<Rightarrow> noise_arg \<Rightarrow> nat \<Rightarrow> ('x, 'u, 'o, 'w) rstate
    \<Rightarrow> 'x \<times> ('u \<times> 'o) \<times> 'w" where
  "query env cn t st =
     (let w1 = update_world env (smp st) t (wld st);
          x0 = get_X (smp st) t
      in (x0, sample_policy env x0 cn w1))"

text \<open>
  Lines 248-251: the label is the executed action when labels carry the noise or the
  noise object is \<open>False\<close>; otherwise the controller is queried a second time, at the same
  state, with \<open>ZeroNoise\<close>.
\<close>

definition label :: "('x, 'u, 'o, 'i, 'w) collab \<Rightarrow> noise_arg \<Rightarrow> 'x \<Rightarrow> 'u \<Rightarrow> 'w \<Rightarrow> 'u \<times> 'w" where
  "label env cn x0 u w =
     (if label_with_noise env \<or> cn = NoiseFalse then (u, w)
      else case sample_policy env x0 (NoiseObj ZeroNoise) w of ((u', o'), w') \<Rightarrow> (u', w'))"

text \<open>
  The body of the timestep loop for timestep \<open>t\<close>; the boolean tells whether the loop
  breaks. The state is advanced with the executed action \<open>u\<close>, not with the label.
\<close>

definition step :: "('x, 'u, 'o, 'i, 'w) collab \<Rightarrow> noise_arg \<Rightarrow> nat \<Rightarrow> ('x, 'u, 'o, 'w) rstate
    \<Rightarrow> ('x, 'u, 'o, 'w) rstate \<times> bool" where
  "step env cn t st =
     (case query env cn t st of (x0, (u, ob), w2) \<Rightarrow>
      case label env cn x0 u w2 of (u_label, w3) \<Rightarrow>
      let s1 = set_O ob t (set_U u_label t (smp st)) in
      case is_collision env s1 t w3 of (crashed, w4) \<Rightarrow>
        if crashed then (st\<lparr>smp := s1, wld := w4\<rparr>, True)
        else
          let st2 = (if int t < int (horizon env) - 1
                     then st\<lparr>smp := set_X (dyn_evolve env x0 u) (t + 1) s1,
                             xlog := xlog st @ [t + 1]\<rparr>
                     else st\<lparr>smp := s1\<rparr>);
              w5 = (if has_curr_traj env w4 then update_visualization env (smp st2) t w4 else w4)
          in (st2\<lparr>wld := w5\<rparr>, False))"

text \<open>
  \<^verbatim>\<open>for t in xrange(T)\<close> from timestep \<open>t\<close> on. The result carries the value of the loop
  variable after the loop: the timestep of the break, or the last timestep of the range.
  The loop is entered with \<open>T > 0\<close> only (see \<open>init_sample\<close> below), so the range is
  never empty and the variable is bound when it is read after the loop.
\<close>

function for_t :: "('x, 'u, 'o, 'i, 'w) collab \<Rightarrow> noise_arg \<Rightarrow> nat \<Rightarrow> ('x, 'u, 'o, 'w) rstate
    \<Rightarrow> ('x, 'u, 'o, 'w) rstate \<times> nat \<times> bool" where
  "for_t env cn t st =
     (if t < horizon env
      then case step env cn t st of
             (st', True) \<Rightarrow> (st', t, True)
           | (st', False) \<Rightarrow> for_t env cn (Suc t) st'
      else (st, t - 1, False))"
  by pat_completeness auto
termination
  by (relation "measure (\<lambda>(env, cn, t, st). horizon env - t)") auto

declare for_t.simps [simp del]

text \<open>
  Lines 229-230. With \<open>T = 0\<close> the sample has no timestep 0 to write the initial state
  to, and no rollout takes place.
\<close>

definition init_sample :: "('x, 'u, 'o, 'i, 'w) collab \<Rightarrow> 'x \<Rightarrow> error + ('x, 'u, 'o) sample" where
  "init_sample env x0 =
     (if horizon env = 0 then Inl IndexError
      else Inr (set_X x0 0 (new_sample (fill_X env) (fill_U env) (fill_O env) (horizon env))))"

text \<open>
  The timestep loop on the initial sample, and the truncation of line 271. The result is
  the truncated sample, the final value of \<open>t\<close> and the final loop state.
\<close>

definition rollout :: "('x, 'u, 'o, 'i, 'w) collab \<Rightarrow> noise_arg \<Rightarrow> ('x, 'u, 'o) sample \<Rightarrow> 'w
    \<Rightarrow> ('x, 'u, 'o) sample \<times> nat \<times> ('x, 'u, 'o, 'w) rstate" where
  "rollout env cn sample_T w =
     (case for_t env cn 0 \<lparr>smp = sample_T, wld = w, xlog = [0]\<rparr> of
        (st, t, crashed) \<Rightarrow> (match_upto (t + 1) (smp st), t, st))"

text \<open>
  The loop state a rollout starts from, the state before timestep \<open>t\<close> when no earlier
  timestep broke the loop, and whether the terminal predicate fires at timestep \<open>t\<close>.
\<close>

definition start :: "('x, 'u, 'o, 'i, 'w) collab \<Rightarrow> 'x \<Rightarrow> 'w \<Rightarrow> ('x, 'u, 'o, 'w) rstate" where
  "start env x0 w =
     \<lparr>smp = set_X x0 0 (new_sample (fill_X env) (fill_U env) (fill_O env) (horizon env)),
      wld = w, xlog = [0]\<rparr>"

primrec state_before :: "('x, 'u, 'o, 'i, 'w) collab \<Rightarrow> noise_arg \<Rightarrow> ('x, 'u, 'o, 'w) rstate \<Rightarrow> nat
    \<Rightarrow> ('x, 'u, 'o, 'w) rstate" where
  "state_before env cn st0 0 = st0"
| "state_before env cn st0 (Suc t) = fst (step env cn t (state_before env cn st0 t))"

definition collides :: "('x, 'u, 'o, 'i, 'w) collab \<Rightarrow> noise_arg \<Rightarrow> ('x, 'u, 'o, 'w) rstate \<Rightarrow> nat \<Rightarrow> bool" where
  "collides env cn st0 t = snd (step env cn t (state_before env cn st0 t))"

text \<open>
  The call \<^verbatim>\<open>self.dynamics.evolve(x0, u)\<close> of the rollout on the RC-car dynamics: the
  optional arguments are left at \<open>None\<close>.
\<close>

definition rccar_evolve :: "'x \<Rightarrow> 'u \<Rightarrow> 'x" where
  "rccar_evolve x u = evolve x u (None :: unit option) (None :: unit option) (None :: unit option)"

section \<open>One iteration (DaggerPrediction.\_run\_itr)\<close>

text \<open>
  The three lists \<open>_run_itr\<close> accumulates, and the number of "Not good rollout" warnings
  logged so far.
\<close>

record ('x, 'u, 'o, 'i) acc =
  samples :: "('x, 'u, 'o) sample list"
  world_infos :: "'i list"
  mpc_infos :: "'i list"
  warnings :: nat

text \<open>What one pass of the repetition loop produces before the verdict is acted on.\<close>

record ('x, 'u, 'o, 'i, 'w) tried =
  tr_sample :: "('x, 'u, 'o) sample"
  tr_t :: nat
  tr_world_info :: 'i
  tr_mpc_info :: 'i
  tr_good :: bool
  tr_world :: 'w

text \<open>
  Lines 225-275: one pass of the repetition loop up to and including the call of the
  quality gate.
\<close>

definition attempt :: "('x, 'u, 'o, 'i, 'w) collab \<Rightarrow> nat \<Rightarrow> nat \<Rightarrow> nat \<Rightarrow> 'w
    \<Rightarrow> error + ('x, 'u, 'o, 'i, 'w) tried" where
  "attempt env itr cond rep w =
     (let w1 = (if (cond = 0 \<and> rep = 0) \<or> randomize env w
                then reset_world env itr cond rep w else w)
      in case get_cond env cond rep w1 of (x0, w2) \<Rightarrow>
         case init_sample env x0 of
           Inl e \<Rightarrow> Inl e
         | Inr sample_T \<Rightarrow>
             let w3 = create_mpc env itr x0 w2 in
             case create_control_noise (cn_type env) (cn_keys env) of
               Inl e \<Rightarrow> Inl e
             | Inr noise \<Rightarrow>
                 case rollout env (NoiseObj noise) sample_T (new_noise env noise w3) of
                   (sample, t, st) \<Rightarrow>
                     case get_world_info env (wld st) of (world_info, w4) \<Rightarrow>
                     case is_good_rollout env sample t w4 of (good, w5) \<Rightarrow>
                       Inr \<lparr>tr_sample = sample, tr_t = t, tr_world_info = world_info,
                            tr_mpc_info = mpc_get_info env w4, tr_good = good,
                            tr_world = w5\<rparr>)"

text \<open>
  \<^verbatim>\<open>while rep < self.conditions.repeats\<close> (lines 222-289). A rejected rollout is not
  appended and \<open>rep\<close> stays; an accepted one is appended, then checked with
  \<^verbatim>\<open>assert(samples[-1].isfinite())\<close>, then \<open>rep\<close> advances. The loop has no bound on the
  retries, so it may not return: the result is then \<open>None\<close>.
\<close>

partial_function (option) rep_loop :: "('x, 'u, 'o, 'i, 'w) collab \<Rightarrow> nat \<Rightarrow> nat \<Rightarrow> nat
    \<Rightarrow> ('x, 'u, 'o, 'i) acc \<times> 'w \<Rightarrow> (error + ('x, 'u, 'o, 'i) acc \<times> 'w) option" where
  "rep_loop env itr cond rep aw =
     (if rep < cond_repeats env
      then case attempt env itr cond rep (snd aw) of
             Inl e \<Rightarrow> Some (Inl e)
           | Inr r \<Rightarrow>
               if \<not> tr_good r
               then rep_loop env itr cond rep
                      ((fst aw)\<lparr>warnings := warnings (fst aw) + 1\<rparr>, tr_world r)
               else
                 let a = (fst aw)\<lparr>samples := samples (fst aw) @ [tr_sample r],
                                   world_infos := world_infos (fst aw) @ [tr_world_info r],
                                   mpc_infos := mpc_infos (fst aw) @ [tr_mpc_info r]\<rparr>
                 in if \<not> isfinite env (last (samples a)) then Some (Inl AssertionError)
                    else rep_loop env itr cond (rep + 1) (a, tr_world r)
      else Some (Inr aw))"

declare rep_loop.simps [code]

text \<open>The collaborators' state after \<open>k\<close> passes of the loop for one slot.\<close>

primrec retry_world :: "('x, 'u, 'o, 'i, 'w) collab \<Rightarrow> nat \<Rightarrow> nat \<Rightarrow> nat \<Rightarrow> 'w \<Rightarrow> nat \<Rightarrow> 'w" where
  "retry_world env itr cond rep w 0 = w"
| "retry_world env itr cond rep w (Suc k) =
     (case attempt env itr cond rep (retry_world env itr cond rep w k) of
        Inl e \<Rightarrow> retry_world env itr cond rep w k
      | Inr r \<Rightarrow> tr_world r)"

text \<open>\<^verbatim>\<open>for cond in xrange(self.conditions.length)\<close> over the conditions \<open>conds\<close>.\<close>

fun cond_loop :: "('x, 'u, 'o, 'i, 'w) collab \<Rightarrow> nat \<Rightarrow> nat list
    \<Rightarrow> ('x, 'u, 'o, 'i) acc \<times> 'w \<Rightarrow> (error + ('x, 'u, 'o, 'i) acc \<times> 'w) option" where
  "cond_loop env itr [] aw = Some (Inr aw)"
| "cond_loop env itr (cond # conds) aw =
     (case rep_loop env itr cond 0 aw of
        None \<Rightarrow> None
      | Some (Inl e) \<Rightarrow> Some (Inl e)
      | Some (Inr aw') \<Rightarrow> cond_loop env itr conds aw')"

text \<open>
  The run directory, as far as an iteration writes it: per iteration a samples file, a
  world-metadata file and a controller-metadata file, each present or not.
\<close>

record ('x, 'u, 'o, 'i) disk =
  samples_file :: "nat \<rightharpoonup> ('x, 'u, 'o) sample list"
  worlds_file :: "nat \<rightharpoonup> 'i list"
  mpcs_file :: "nat \<rightharpoonup> 'i list"

text \<open>Lines 103-114: the three save methods of \<open>DaggerPrediction\<close>.\<close>

definition itr_save_samples :: "nat \<Rightarrow> ('x, 'u, 'o) sample list \<Rightarrow> ('x, 'u, 'o, 'i) disk
    \<Rightarrow> ('x, 'u, 'o, 'i) disk" where
  "itr_save_samples itr ss d = d\<lparr>samples_file := (samples_file d)(itr \<mapsto> ss)\<rparr>"

definition itr_save_worlds :: "nat \<Rightarrow> 'i list \<Rightarrow> ('x, 'u, 'o, 'i) disk \<Rightarrow> ('x, 'u, 'o, 'i) disk" where
  "itr_save_worlds itr wis d = d\<lparr>worlds_file := (worlds_file d)(itr \<mapsto> wis)\<rparr>"

definition itr_save_mpcs :: "nat \<Rightarrow> 'i list \<Rightarrow> ('x, 'u, 'o, 'i) disk \<Rightarrow> ('x, 'u, 'o, 'i) disk" where
  "itr_save_mpcs itr mis d = d\<lparr>mpcs_file := (mpcs_file d)(itr \<mapsto> mis)\<rparr>"

text \<open>
  Lines 291-293: three writes, one after the other. The result lists the state of the
  run directory after each of them.
\<close>

definition persist :: "nat \<Rightarrow> ('x, 'u, 'o, 'i) acc \<Rightarrow> ('x, 'u, 'o, 'i) disk
    \<Rightarrow> ('x, 'u, 'o, 'i) disk list" where
  "persist itr a d =
     (let d1 = itr_save_samples itr (samples a) d;
          d2 = itr_save_worlds itr (world_infos a) d1;
          d3 = itr_save_mpcs itr (mpc_infos a) d2
      in [d1, d2, d3])"

text \<open>
  \<open>_run_itr\<close>: the condition loop from empty lists, then the writes, then the world reset
  of line 295. An exception in the loops leaves before any write.
\<close>

record ('x, 'u, 'o, 'i, 'w) itr_result =
  collected :: "('x, 'u, 'o, 'i) acc"
  disks :: "('x, 'u, 'o, 'i) disk list"
  world_after :: 'w

definition run_itr :: "('x, 'u, 'o, 'i, 'w) collab \<Rightarrow> nat \<Rightarrow> ('x, 'u, 'o, 'i) disk \<Rightarrow> 'w
    \<Rightarrow> (error + ('x, 'u, 'o, 'i, 'w) itr_result) option" where
  "run_itr env itr d w =
     (case cond_loop env itr [0..<cond_length env]
             (\<lparr>samples = [], world_infos = [], mpc_infos = [], warnings = 0\<rparr>,
              conditions_reset env w) of
        None \<Rightarrow> None
      | Some (Inl e) \<Rightarrow> Some (Inl e)
      | Some (Inr (a, w')) \<Rightarrow>
          Some (Inr \<lparr>collected = a, disks = persist itr a d,
                     world_after = reset_world env itr 0 0 w'\<rparr>))"

text \<open>Readers of the outcome of an iteration.\<close>

definition itr_collected :: "(error + ('x, 'u, 'o, 'i, 'w) itr_result) option \<Rightarrow> ('x, 'u, 'o, 'i) acc option" where
  "itr_collected r = (case r of Some (Inr res) \<Rightarrow> Some (collected res) | _ \<Rightarrow> None)"

definition itr_disks :: "(error + ('x, 'u, 'o, 'i, 'w) itr_result) option \<Rightarrow> ('x, 'u, 'o, 'i) disk list" where
  "itr_disks r = (case r of Some (Inr res) \<Rightarrow> disks res | _ \<Rightarrow> [])"

section \<open>Concrete collaborators\<close>

text \<open>
  A small world on integers. The horizon is 5. The controller's nominal action is 10 and
  its noisy action is 11; the observation is the state plus 100; the dynamics adds the
  action to the state; the world reports a collision once the state reaches 20. There
  are two conditions with one repetition each; the initial state of a slot is the
  condition index plus the number of verdicts given so far, so that successive rollouts
  of a slot differ. The quality gate rejects two rollouts and accepts the third, again
  and again. Variants: a world without collisions, the RC-car dynamics, and a finiteness
  test that fails on every sample.
\<close>

definition empty_acc :: "('x, 'u, 'o, 'i) acc" where
  "empty_acc = \<lparr>samples = [], world_infos = [], mpc_infos = [], warnings = 0\<rparr>"

definition empty_disk :: "('x, 'u, 'o, 'i) disk" where
  "empty_disk = \<lparr>samples_file = Map.empty, worlds_file = Map.empty, mpcs_file = Map.empty\<rparr>"

definition demo_env :: "(int, int, int, nat, nat) collab" where
  "demo_env =
     \<lparr>horizon = 5, label_with_noise = False, cn_type = ''gaussian'', cn_keys = [''gaussian''],
      fill_X = 0, fill_U = 0, fill_O = 0,
      update_world = (\<lambda>s t w. w),
      sample_policy = (\<lambda>x n w. ((if n = NoiseObj ZeroNoise then 10 else 11, x + 100), w)),
      is_collision = (\<lambda>s t w. (20 \<le> sX s ! t, w)),
      dyn_evolve = (\<lambda>x u. x + u),
      has_curr_traj = (\<lambda>w. False),
      update_visualization = (\<lambda>s t w. w),
      cond_length = 2, cond_repeats = 1,
      conditions_reset = (\<lambda>w. w),
      randomize = (\<lambda>w. True),
      reset_world = (\<lambda>itr cond rep w. w),
      get_cond = (\<lambda>cond rep w. (int cond + int w, w)),
      create_mpc = (\<lambda>itr x w. w),
      new_noise = (\<lambda>n w. w),
      get_world_info = (\<lambda>w. (w, w)),
      mpc_get_info = (\<lambda>w. w),
      is_good_rollout = (\<lambda>s t w. (w mod 3 = 2, w + 1)),
      isfinite = (\<lambda>s. True)\<rparr>"

definition demo_full :: "(int, int, int, nat, nat) collab" where
  "demo_full = demo_env\<lparr>is_collision := (\<lambda>s t w. (False, w))\<rparr>"

definition demo_rccar :: "(int, int, int, nat, nat) collab" where
  "demo_rccar = demo_env\<lparr>dyn_evolve := rccar_evolve\<rparr>"

definition demo_nan :: "(int, int, int, nat, nat) collab" where
  "demo_nan = demo_env\<lparr>isfinite := (\<lambda>s. False)\<rparr>"

text \<open>
  Modelled from the spec: \<open>Probcoll\<close>, the base class of \<open>ProbcollRCcar\<close>, is not among
  the sources; the iteration driver that calls the RC car's gate is taken to be the one
  of \<open>DaggerPrediction\<close>, whose line 275, \<^verbatim>\<open>if not self._is_good_rollout(sample, t)\<close>, is
  the only call of \<open>_is_good_rollout\<close> in the sources. \<open>hw_gate\<close> is the truth value
  that this test takes from the hardware gate, in an environment in which the wait
  returns; \<open>demo_hw\<close> is the small world with this gate, in the environment that shuts
  down at the second pass of the wait.
\<close>

definition hw_gate :: "(nat \<Rightarrow> poll) \<Rightarrow> bool" where
  "hw_gate env =
     (case rccar_is_good_rollout False env of Some (v, slept) \<Rightarrow> truthy v | None \<Rightarrow> False)"

definition demo_hw :: "(int, int, int, nat, nat) collab" where
  "demo_hw = demo_env\<lparr>is_good_rollout := (\<lambda>s t w. (hw_gate env_shutdown, w + 1))\<rparr>"

section \<open>Properties\<close>

subsection \<open>The resume point (C1)\<close>

lemma scan_down_None: "scan_down p n = None \<longleftrightarrow> (\<forall>i<n. \<not> p i)"
  by (induction n) (auto simp: less_Suc_eq)

lemma scan_down_Some:
  "scan_down p n = Some i \<longleftrightarrow> i < n \<and> p i \<and> (\<forall>j. i < j \<and> j < n \<longrightarrow> \<not> p j)"
proof (induction n)
  case 0
  then show ?case by simp
next
  case (Suc n)
  show ?case
  proof (cases "p n")
    case True
    then show ?thesis
      by (auto simp: less_Suc_eq)
  next
    case False
    then show ?thesis
      using Suc by (auto simp: less_Suc_eq)
  qed
qed

lemma scan_down_Max:
  assumes "scan_down p n = Some i"
  shows "Max {j. j < n \<and> p j} = i"
proof (rule Max_eqI)
  show "finite {j. j < n \<and> p j}" by simp
  show "i \<in> {j. j < n \<and> p j}" using assms by (simp add: scan_down_Some)
  fix y assume "y \<in> {j. j < n \<and> p j}"
  then show "y \<le> i" using assms by (auto simp: scan_down_Some intro: leI)
qed

lemma find_last_spec:
  assumes "0 < mx"
  shows "fst (find_last p mx) = Some (spec_resume_iter p (nat mx))"
proof (cases "scan_down p (nat mx)")
  case None
  then have "\<not> (\<exists>i<nat mx. p i)" by (simp add: scan_down_None)
  then show ?thesis using assms None
    by (simp add: find_last_def spec_resume_iter_def)
next
  case (Some i)
  then have "\<exists>j<nat mx. p j" by (auto simp: scan_down_Some)
  then show ?thesis using assms Some scan_down_Max [OF Some]
    by (simp add: find_last_def spec_resume_iter_def)
qed

lemma find_last_file:
  assumes "0 < mx"
  shows "snd (find_last p mx) = scan_down p (nat mx)"
  using assms by (simp add: find_last_def split: option.splits)

lemma resolve_spec:
  assumes "0 < mx"
  shows "resolve ckpt smpl mx =
     (let m = spec_resume_iter ckpt (nat mx); s = spec_resume_iter smpl (nat mx) in
      if consistent m s
      then Inr \<lparr>model_start_itr = m, samples_start_itr = s,
                model_file = scan_down ckpt (nat mx)\<rparr>
      else Inl AssertionError)"
proof -
  obtain mf where m: "find_last ckpt mx = (Some (spec_resume_iter ckpt (nat mx)), mf)"
    using find_last_spec [OF assms, of ckpt] by (cases "find_last ckpt mx") simp
  obtain sf where s: "find_last smpl mx = (Some (spec_resume_iter smpl (nat mx)), sf)"
    using find_last_spec [OF assms, of smpl] by (cases "find_last smpl mx") simp
  have "mf = scan_down ckpt (nat mx)"
    using find_last_file [OF assms, of ckpt] m by simp
  then show ?thesis
    by (simp add: resolve_def m s consistent_def Let_def)
qed


lemma scan_down_store_ckpt: "3 \<le> n \<Longrightarrow> scan_down store_ckpt n = Some 2"
  by (auto simp: scan_down_Some store_ckpt_def)

lemma scan_down_store_smp: "4 \<le> n \<Longrightarrow> scan_down store_smp n = Some 3"
  by (auto simp: scan_down_Some store_smp_def)

text \<open>
  C1 (as amended). For every on-disk state and every \<open>max_iter > 0\<close>, the resolver sets
  \<open>model_start_itr\<close> to one plus the largest index below \<open>max_iter\<close> with a valid
  checkpoint (0, and no checkpoint to load, when there is none), \<open>samples_start_itr\<close> to
  one plus the largest index below \<open>max_iter\<close> with a samples file (0 when there is none),
  and raises \<open>AssertionError\<close> unless the first equals the second, or the second minus
  one, or the pair is (1, 0). With checkpoints at 0, 1, 2 and samples at 0, 1, 2, 3 the
  pair is (3, 4) whenever \<open>max_iter\<close> is at least 4.
\<close>

theorem resolve_resume_point:
  "(0 < mx \<longrightarrow>
      resolve ckpt smpl mx =
       (let m = spec_resume_iter ckpt (nat mx); s = spec_resume_iter smpl (nat mx) in
        if consistent m s
        then Inr \<lparr>model_start_itr = m, samples_start_itr = s,
                  model_file = scan_down ckpt (nat mx)\<rparr>
        else Inl AssertionError))
   \<and> (4 \<le> mx \<longrightarrow>
      resolve store_ckpt store_smp mx =
        Inr \<lparr>model_start_itr = 3, samples_start_itr = 4, model_file = Some 2\<rparr>)"
proof (intro conjI impI)
  assume "0 < mx"
  then show "resolve ckpt smpl mx =
       (let m = spec_resume_iter ckpt (nat mx); s = spec_resume_iter smpl (nat mx) in
        if consistent m s
        then Inr \<lparr>model_start_itr = m, samples_start_itr = s,
                  model_file = scan_down ckpt (nat mx)\<rparr>
        else Inl AssertionError)"
    by (rule resolve_spec)
next
  assume mx: "4 \<le> mx"
  then have "scan_down store_ckpt (nat mx) = Some 2" "scan_down store_smp (nat mx) = Some 3"
    by (simp_all add: scan_down_store_ckpt scan_down_store_smp)
  then show "resolve store_ckpt store_smp mx =
        Inr \<lparr>model_start_itr = 3, samples_start_itr = 4, model_file = Some 2\<rparr>"
    using mx by (simp add: resolve_def find_last_def)
qed

text \<open>The theorem at \<open>max_iter = 5\<close> on the example state.\<close>

theorem resolve_resume_point_witness:
  "(0::int) < 5 \<and> (4::int) \<le> 5 \<and>
   resolve store_ckpt store_smp 5 =
     Inr \<lparr>model_start_itr = 3, samples_start_itr = 4, model_file = Some 2\<rparr>"
  using resolve_resume_point [of 5 store_ckpt store_smp, THEN conjunct2] by simp

text \<open>
  C1 as stated fails for a smaller \<open>max_iter\<close>: the scan starts at \<open>max_iter - 1\<close>, so with
  \<open>max_iter = 3\<close> the samples file of iteration 3 is never looked at and the same state
  resolves to (3, 3).
\<close>

theorem resolve_example_counterexample:
  "(0::int) < 3 \<and>
   resolve store_ckpt store_smp 3 =
     Inr \<lparr>model_start_itr = 3, samples_start_itr = 3, model_file = Some 2\<rparr>"
  by (simp add: resolve_def find_last_def store_ckpt_def store_smp_def eval_nat_numeral)

subsection \<open>Catch-up training (C2)\<close>

text \<open>
  C2 (as amended). Between the resolution and the iteration loop a training step runs if
  and only if \<open>model_start_itr = samples_start_itr - 1\<close>, or both are 0 and an initial
  data folder is configured. When it runs it is the last call before the loop, after the
  previous samples and the initial data were added to the model's data, and it trains
  into the checkpoint file of iteration \<open>model_start_itr\<close> with the standard number of
  epochs.
\<close>

theorem catchup_training_rule:
  assumes "resolve ckpt smpl (max_iter cfg) = Inr r"
  shows "\<exists>pre. startup cfg ckpt smpl = Inr (pre @ catchup cfg r, samples_start_itr r)
      \<and> (\<forall>e\<in>set pre. \<not> is_train e)
      \<and> (samples_start_itr r > 0 \<longrightarrow> AddData [0 .. samples_start_itr r - 1] \<in> set pre)
      \<and> (\<forall>fs. init_data cfg = Some fs \<longrightarrow> AddInitData fs \<in> set pre)
      \<and> catchup cfg r =
          (if model_start_itr r = samples_start_itr r - 1
              \<or> (model_start_itr r = 0 \<and> samples_start_itr r = 0 \<and> init_data cfg \<noteq> None)
           then [Train (if samples_start_itr r \<le> 0 then None else Some (model_start_itr r))
                       (model_start_itr r) (epochs cfg)]
           else [])"
  using assms
  by (auto simp: startup_def catchup_def Let_def split: option.splits)

text \<open>The theorem on the example state (checkpoints 0-2, samples 0-3, \<open>max_iter = 5\<close>).\<close>

theorem catchup_training_rule_witness:
  "resolve store_ckpt store_smp (max_iter (cfg_boot\<lparr>max_iter := 5\<rparr>)) =
     Inr \<lparr>model_start_itr = 3, samples_start_itr = 4, model_file = Some 2\<rparr> \<and>
   startup (cfg_boot\<lparr>max_iter := 5\<rparr>) store_ckpt store_smp =
     Inr ([Load 2, AddData [0, 1, 2, 3], AddInitData [''init.npz''], Train (Some 3) 3 5], 4)"
proof -
  have r: "resolve store_ckpt store_smp (max_iter (cfg_boot\<lparr>max_iter := 5\<rparr>)) =
     Inr \<lparr>model_start_itr = 3, samples_start_itr = 4, model_file = Some 2\<rparr>"
    by (simp add: resolve_def find_last_def store_ckpt_def store_smp_def eval_nat_numeral)
  from catchup_training_rule [OF r]
  obtain pre where "startup (cfg_boot\<lparr>max_iter := 5\<rparr>) store_ckpt store_smp =
      Inr (pre @ [Train (Some 3) 3 5], 4)"
    by (auto simp: cfg_boot_def)
  moreover have "startup (cfg_boot\<lparr>max_iter := 5\<rparr>) store_ckpt store_smp =
     Inr ([Load 2, AddData [0, 1, 2, 3], AddInitData [''init.npz''], Train (Some 3) 3 5], 4)"
    using r by (simp add: startup_def catchup_def cfg_boot_def upto.simps)
  ultimately show ?thesis using r by simp
qed

text \<open>
  C2 as stated names the pair (1, 0) as the bootstrap case that trains. On the code, a
  store with checkpoint 0, no samples and an initial data folder resolves to (1, 0) and
  starts the loop without training; the empty store with an initial data folder resolves
  to (0, 0) and does train, into checkpoint 0.
\<close>

theorem catchup_bootstrap_counterexample:
  "resolve only_itr0 no_itr (max_iter cfg_boot) =
     Inr \<lparr>model_start_itr = 1, samples_start_itr = 0, model_file = Some 0\<rparr> \<and>
   init_data cfg_boot = Some [''init.npz''] \<and>
   startup cfg_boot only_itr0 no_itr = Inr ([Load 0, AddInitData [''init.npz'']], 0) \<and>
   resolve no_itr no_itr (max_iter cfg_boot) =
     Inr \<lparr>model_start_itr = 0, samples_start_itr = 0, model_file = None\<rparr> \<and>
   startup cfg_boot no_itr no_itr = Inr ([AddInitData [''init.npz''], Train None 0 5], 0)"
  by (simp add: startup_def resolve_def find_last_def cfg_boot_def only_itr0_def no_itr_def
      catchup_def eval_nat_numeral)

subsection \<open>Training steps of the loop (C3)\<close>

lemma train_loop_trains:
  assumes "e \<in> set (fst (train_loop cfg ri itrs))" and "is_train e"
  shows "\<exists>itr\<in>set itrs. e = Train (Some (itr - 1)) itr
                          (if itr \<le> 1 then init_epochs cfg else epochs cfg)"
  using assms
proof (induction itrs)
  case Nil
  then show ?case by simp
next
  case (Cons itr itrs)
  show ?case
  proof (cases "ri itr")
    case None
    obtain rest r where tl: "train_loop cfg ri itrs = (rest, r)"
      by (cases "train_loop cfg ri itrs")
    from Cons.prems None tl have "e \<in> set (after_itr cfg itr) \<or> e \<in> set rest"
      by auto
    then show ?thesis
    proof
      assume "e \<in> set (after_itr cfg itr)"
      with \<open>is_train e\<close> have "e = Train (Some (itr - 1)) itr
                          (if itr \<le> 1 then init_epochs cfg else epochs cfg)"
        by (auto simp: after_itr_def split: if_splits)
      then show ?thesis by simp
    next
      assume "e \<in> set rest"
      with Cons.IH \<open>is_train e\<close> tl show ?thesis by auto
    qed
  next
    case (Some err)
    with Cons.prems show ?thesis by auto
  qed
qed

lemma train_loop_all:
  assumes "\<forall>itr\<in>set itrs. ri itr = None" and "planner_type cfg \<noteq> ''randomwalk''"
  shows "filter is_train (fst (train_loop cfg ri itrs)) =
     map (\<lambda>itr. Train (Some (itr - 1)) itr (if itr \<le> 1 then init_epochs cfg else epochs cfg)) itrs"
  using assms
  by (induction itrs) (auto simp: after_itr_def split: option.splits prod.splits)

text \<open>
  C3 (as amended). Every training step of the loop belongs to an iteration \<open>itr\<close> of the
  loop, writes checkpoint \<open>itr\<close>, is seeded from the checkpoint file of \<open>itr - 1\<close>, and
  runs the initial number of epochs when \<open>itr \<le> 1\<close> and the standard number when
  \<open>itr > 1\<close>. When no iteration raises and the planner is not \<open>randomwalk\<close>, every
  iteration of the loop trains, once, in order.
\<close>

theorem training_step_epochs:
  "(\<forall>e\<in>set (fst (train_loop cfg ri itrs)). is_train e \<longrightarrow>
     (\<exists>itr\<in>set itrs. e = Train (Some (itr - 1)) itr
                          (if itr \<le> 1 then init_epochs cfg else epochs cfg)))
   \<and> ((\<forall>itr\<in>set itrs. ri itr = None) \<and> planner_type cfg \<noteq> ''randomwalk'' \<longrightarrow>
        filter is_train (fst (train_loop cfg ri itrs)) =
          map (\<lambda>itr. Train (Some (itr - 1)) itr
                        (if itr \<le> 1 then init_epochs cfg else epochs cfg)) itrs)"
  using train_loop_trains [of _ cfg ri itrs] train_loop_all [of itrs ri cfg] by blast

text \<open>The theorem on iterations 0, 1, 2 with 5 epochs and 50 initial epochs.\<close>

theorem training_step_epochs_witness:
  "never_raises 0 = None \<and> never_raises 1 = None \<and> never_raises 2 = None \<and>
   planner_type cfg_boot \<noteq> ''randomwalk'' \<and>
   filter is_train (fst (train_loop cfg_boot never_raises [0, 1, 2])) =
     [Train (Some (- 1)) 0 50, Train (Some 0) 1 50, Train (Some 1) 2 5]"
  using training_step_epochs [of cfg_boot never_raises "[0, 1, 2]"]
  by (simp add: never_raises_def cfg_boot_def)

text \<open>
  C3 as stated gives the initial epochs to the first training step only. On the code a
  fresh run trains iterations 0 and 1 with the 50 initial epochs both, and a run resumed
  at iteration 1, whose predecessor was trained already, trains iteration 1 with the
  50 initial epochs as well.
\<close>

theorem second_training_step_counterexample:
  "run (cfg_boot\<lparr>init_data := None\<rparr>) no_itr no_itr never_raises =
     ([RunItr 0, AddData [0], Train (Some (- 1)) 0 50,
       RunItr 1, AddData [1], Train (Some 0) 1 50,
       RunItr 2, AddData [2], Train (Some 1) 2 5], None) \<and>
   run (cfg_boot\<lparr>init_data := None\<rparr>) only_itr0 only_itr0 never_raises =
     ([Load 0, AddData [0],
       RunItr 1, AddData [1], Train (Some 0) 1 50,
       RunItr 2, AddData [2], Train (Some 1) 2 5], None) \<and>
   init_epochs cfg_boot = 50 \<and> epochs cfg_boot = 5"
  by (simp add: run_def startup_def resolve_def find_last_def cfg_boot_def only_itr0_def
      no_itr_def catchup_def eval_nat_numeral never_raises_def upto.simps after_itr_def)

subsection \<open>The wait loop\<close>

lemma ros_poll_stop:
  assumes "is_shutdown (env n) \<or> decided (env n)"
  shows "ros_poll env n slept =
     Some (if is_shutdown (env n) then None else Some (good_rollout (env n)), slept)"
  using assms by (subst ros_poll.simps) (auto simp: decided_def)

lemma ros_poll_wait:
  assumes "\<not> is_shutdown (env n)" "\<not> decided (env n)"
  shows "ros_poll env n slept = ros_poll env (Suc n) (slept + sleep_ms)"
  using assms by (subst ros_poll.simps) (auto simp: decided_def)

lemma ros_poll_reaches:
  assumes "\<forall>i<k. \<not> is_shutdown (env (n + i)) \<and> \<not> decided (env (n + i))"
    and "is_shutdown (env (n + k)) \<or> decided (env (n + k))"
  shows "ros_poll env n slept =
     Some (if is_shutdown (env (n + k)) then None else Some (good_rollout (env (n + k))),
           slept + k * sleep_ms)"
  using assms
proof (induction k arbitrary: n slept)
  case 0
  then show ?case by (simp add: ros_poll_stop)
next
  case (Suc k)
  from Suc.prems(1) have now: "\<not> is_shutdown (env n)" "\<not> decided (env n)"
    by (metis add.right_neutral zero_less_Suc)+
  have later: "\<forall>i<k. \<not> is_shutdown (env (Suc n + i)) \<and> \<not> decided (env (Suc n + i))"
    using Suc.prems(1) by (metis Suc_less_eq add_Suc_shift)
  have "ros_poll env n slept = ros_poll env (Suc n) (slept + sleep_ms)"
    using now by (rule ros_poll_wait)
  also have "\<dots> = Some (if is_shutdown (env (Suc n + k)) then None
                          else Some (good_rollout (env (Suc n + k))),
                         slept + sleep_ms + k * sleep_ms)"
    using later Suc.prems(2) by (intro Suc.IH) simp_all
  finally show ?case by simp
qed

lemma ros_poll_returns:
  assumes "ros_poll env n slept = Some y"
  shows "\<exists>k. snd y = slept + k * sleep_ms
      \<and> (\<forall>i<k. \<not> is_shutdown (env (n + i)) \<and> \<not> decided (env (n + i)))
      \<and> (if is_shutdown (env (n + k)) then fst y = None
          else decided (env (n + k)) \<and> fst y = Some (good_rollout (env (n + k))))"
proof (rule ros_poll.raw_induct [where P = "\<lambda>env n slept y.
      \<exists>k. snd y = slept + k * sleep_ms
      \<and> (\<forall>i<k. \<not> is_shutdown (env (n + i)) \<and> \<not> decided (env (n + i)))
      \<and> (if is_shutdown (env (n + k)) then fst y = None
          else decided (env (n + k)) \<and> fst y = Some (good_rollout (env (n + k))))",
      OF _ assms])
  fix rp :: "(nat \<Rightarrow> poll) \<Rightarrow> nat \<Rightarrow> nat \<Rightarrow> (bool option \<times> nat) option"
  fix env n slept y
  assume IH: "\<And>env n slept y. rp env n slept = Some y \<Longrightarrow>
      \<exists>k. snd y = slept + k * sleep_ms
      \<and> (\<forall>i<k. \<not> is_shutdown (env (n + i)) \<and> \<not> decided (env (n + i)))
      \<and> (if is_shutdown (env (n + k)) then fst y = None
          else decided (env (n + k)) \<and> fst y = Some (good_rollout (env (n + k))))"
  assume body: "(if is_shutdown (env n) then Some (None, slept)
      else if good_rollout (env n) \<and> \<not> bad_rollout (env n) then Some (Some True, slept)
      else if bad_rollout (env n) \<and> \<not> good_rollout (env n) then Some (Some False, slept)
      else rp env (Suc n) (slept + sleep_ms)) = Some y"
  show "\<exists>k. snd y = slept + k * sleep_ms
      \<and> (\<forall>i<k. \<not> is_shutdown (env (n + i)) \<and> \<not> decided (env (n + i)))
      \<and> (if is_shutdown (env (n + k)) then fst y = None
          else decided (env (n + k)) \<and> fst y = Some (good_rollout (env (n + k))))"
  proof (cases "is_shutdown (env n) \<or> decided (env n)")
    case True
    with body have "snd y = slept \<and>
        (if is_shutdown (env n) then fst y = None
          else decided (env n) \<and> fst y = Some (good_rollout (env n)))"
      by (auto simp: decided_def split: if_splits)
    then show ?thesis by (intro exI [of _ 0]) (simp cong: if_cong)
  next
    case False
    with body have "rp env (Suc n) (slept + sleep_ms) = Some y"
      by (auto simp: decided_def split: if_splits)
    from IH [OF this] obtain k where k: "snd y = slept + sleep_ms + k * sleep_ms"
      "\<forall>i<k. \<not> is_shutdown (env (Suc n + i)) \<and> \<not> decided (env (Suc n + i))"
      "if is_shutdown (env (Suc n + k)) then fst y = None
          else decided (env (Suc n + k)) \<and> fst y = Some (good_rollout (env (Suc n + k)))"
      by blast
    have "\<forall>i<Suc k. \<not> is_shutdown (env (n + i)) \<and> \<not> decided (env (n + i))"
    proof (intro allI impI)
      fix i assume "i < Suc k"
      then show "\<not> is_shutdown (env (n + i)) \<and> \<not> decided (env (n + i))"
        using False k(2) by (cases i) auto
    qed
    with k(1,3) show ?thesis by (intro exI [of _ "Suc k"]) (simp cong: if_cong)
  qed
qed

lemma ros_wait_outcome:
  "ros_is_good_rollout env = Some (r, slept) \<longleftrightarrow>
     (\<exists>n. slept = n * sleep_ms
        \<and> (\<forall>i<n. \<not> is_shutdown (env i) \<and> \<not> decided (env i))
        \<and> (if is_shutdown (env n) then r = None
            else decided (env n) \<and> r = Some (good_rollout (env n))))"
proof
  assume "ros_is_good_rollout env = Some (r, slept)"
  then show "\<exists>n. slept = n * sleep_ms
        \<and> (\<forall>i<n. \<not> is_shutdown (env i) \<and> \<not> decided (env i))
        \<and> (if is_shutdown (env n) then r = None
            else decided (env n) \<and> r = Some (good_rollout (env n)))"
    using ros_poll_returns [of env 0 0 "(r, slept)"]
    by (simp add: ros_is_good_rollout_def cong: if_cong)
next
  assume "\<exists>n. slept = n * sleep_ms
        \<and> (\<forall>i<n. \<not> is_shutdown (env i) \<and> \<not> decided (env i))
        \<and> (if is_shutdown (env n) then r = None
            else decided (env n) \<and> r = Some (good_rollout (env n)))"
  then obtain n where n: "slept = n * sleep_ms"
      "\<forall>i<n. \<not> is_shutdown (env i) \<and> \<not> decided (env i)"
      "if is_shutdown (env n) then r = None
            else decided (env n) \<and> r = Some (good_rollout (env n))"
    by blast
  have "is_shutdown (env (0 + n)) \<or> decided (env (0 + n))"
    using n(3) by (auto split: if_splits)
  from ros_poll_reaches [of n env 0, OF _ this, of 0] n
  show "ros_is_good_rollout env = Some (r, slept)"
    by (auto simp: ros_is_good_rollout_def split: if_splits)
qed

subsection \<open>The timestep loop\<close>

lemma step_smp:
  "smp (fst (step env cn t st)) =
     (case query env cn t st of (x0, (u, ob), w2) \<Rightarrow>
        \<lparr>sX = (if \<not> snd (step env cn t st) \<and> int t < int (horizon env) - 1
               then (sX (smp st))[t + 1 := dyn_evolve env x0 u] else sX (smp st)),
         sU = (sU (smp st))[t := fst (label env cn x0 u w2)],
         sO = (sO (smp st))[t := ob]\<rparr>)"
  by (simp add: step_def set_X_def set_U_def set_O_def Let_def split: prod.splits)

lemma step_xlog:
  "xlog (fst (step env cn t st)) =
     (if \<not> snd (step env cn t st) \<and> int t < int (horizon env) - 1
      then xlog st @ [t + 1] else xlog st)"
  by (simp add: step_def Let_def split: prod.splits)

lemma step_lengths:
  "length (sX (smp (fst (step env cn t st)))) = length (sX (smp st))"
  "length (sU (smp (fst (step env cn t st)))) = length (sU (smp st))"
  "length (sO (smp (fst (step env cn t st)))) = length (sO (smp st))"
  by (simp_all add: step_smp split: prod.splits)

lemma state_before_lengths:
  "length (sX (smp (state_before env cn st0 t))) = length (sX (smp st0))"
  "length (sU (smp (state_before env cn st0 t))) = length (sU (smp st0))"
  "length (sO (smp (state_before env cn st0 t))) = length (sO (smp st0))"
  by (induction t) (simp_all add: step_lengths)

lemma for_t_continue:
  assumes "t < horizon env" "\<not> snd (step env cn t st)"
  shows "for_t env cn t st = for_t env cn (Suc t) (fst (step env cn t st))"
  using assms by (subst for_t.simps) (auto split: prod.splits)

lemma for_t_break:
  assumes "t < horizon env" "snd (step env cn t st)"
  shows "for_t env cn t st = (fst (step env cn t st), t, True)"
  using assms by (subst for_t.simps) (auto split: prod.splits)

lemma for_t_done:
  assumes "horizon env \<le> t"
  shows "for_t env cn t st = (st, t - 1, False)"
  using assms by (subst for_t.simps) simp

lemma for_t_crash:
  assumes "t + k < horizon env"
    and "\<forall>i<k. \<not> collides env cn st0 (t + i)"
    and "collides env cn st0 (t + k)"
  shows "for_t env cn t (state_before env cn st0 t) =
     (fst (step env cn (t + k) (state_before env cn st0 (t + k))), t + k, True)"
  using assms
proof (induction k arbitrary: t)
  case 0
  then show ?case by (simp add: for_t_break collides_def)
next
  case (Suc k)
  from Suc.prems(2) have now: "\<not> collides env cn st0 t"
    by (metis add.right_neutral zero_less_Suc)
  have later: "\<forall>i<k. \<not> collides env cn st0 (Suc t + i)"
    using Suc.prems(2) by (metis Suc_less_eq add_Suc_shift)
  have "for_t env cn t (state_before env cn st0 t) =
      for_t env cn (Suc t) (state_before env cn st0 (Suc t))"
    using now Suc.prems(1) by (simp add: for_t_continue collides_def)
  also have "\<dots> = (fst (step env cn (Suc t + k) (state_before env cn st0 (Suc t + k))),
      Suc t + k, True)"
    using Suc.prems later by (intro Suc.IH) simp_all
  finally show ?case by simp
qed

lemma for_t_full:
  assumes "t + k = horizon env"
    and "\<forall>i<k. \<not> collides env cn st0 (t + i)"
  shows "for_t env cn t (state_before env cn st0 t) =
     (state_before env cn st0 (horizon env), horizon env - 1, False)"
  using assms
proof (induction k arbitrary: t)
  case 0
  then show ?case by (simp add: for_t_done)
next
  case (Suc k)
  from Suc.prems(2) have now: "\<not> collides env cn st0 t"
    by (metis add.right_neutral zero_less_Suc)
  have later: "\<forall>i<k. \<not> collides env cn st0 (Suc t + i)"
    using Suc.prems(2) by (metis Suc_less_eq add_Suc_shift)
  have "for_t env cn t (state_before env cn st0 t) =
      for_t env cn (Suc t) (state_before env cn st0 (Suc t))"
    using now Suc.prems(1) by (simp add: for_t_continue collides_def)
  also have "\<dots> = (state_before env cn st0 (horizon env), horizon env - 1, False)"
    using Suc.prems later by (intro Suc.IH) simp_all
  finally show ?case .
qed

lemma state_before_xlog:
  assumes "xlog st0 = [0]" "t < horizon env" "\<forall>i<t. \<not> collides env cn st0 i"
  shows "xlog (state_before env cn st0 t) = [0..<Suc t]"
  using assms
proof (induction t)
  case 0
  then show ?case by simp
next
  case (Suc t)
  then have "xlog (state_before env cn st0 t) = [0..<Suc t]" by simp
  moreover have "\<not> snd (step env cn t (state_before env cn st0 t))"
    using Suc.prems(3) by (simp add: collides_def)
  moreover have "int t < int (horizon env) - 1" using Suc.prems(2) by simp
  ultimately show ?case by (simp add: step_xlog)
qed

lemma step_frame:
  "i \<noteq> t \<Longrightarrow> sU (smp (fst (step env cn t st))) ! i = sU (smp st) ! i"
  "i \<noteq> t \<Longrightarrow> sO (smp (fst (step env cn t st))) ! i = sO (smp st) ! i"
  "i \<noteq> t + 1 \<Longrightarrow> sX (smp (fst (step env cn t st))) ! i = sX (smp st) ! i"
  by (simp_all add: step_smp split: prod.splits)

lemma state_before_frame:
  assumes "j \<le> k"
  shows "i < j \<Longrightarrow> sU (smp (state_before env cn st0 k)) ! i = sU (smp (state_before env cn st0 j)) ! i"
    and "i < j \<Longrightarrow> sO (smp (state_before env cn st0 k)) ! i = sO (smp (state_before env cn st0 j)) ! i"
    and "i \<le> j \<Longrightarrow> sX (smp (state_before env cn st0 k)) ! i = sX (smp (state_before env cn st0 j)) ! i"
  using assms
proof (induction k)
  case 0
  { case 1 then show ?case by simp }
  { case 2 then show ?case by simp }
  { case 3 then show ?case by simp }
next
  case (Suc k)
  { case 1 then show ?case using Suc.IH(1)
      by (cases "j = Suc k") (simp_all add: step_frame) }
  { case 2 then show ?case using Suc.IH(2)
      by (cases "j = Suc k") (simp_all add: step_frame) }
  { case 3 then show ?case using Suc.IH(3)
      by (cases "j = Suc k") (simp_all add: step_frame) }
qed

lemma for_t_final:
  assumes "0 < horizon env"
  shows "\<exists>te. for_t env cn 0 st0 = (state_before env cn st0 (Suc te), te, collides env cn st0 te)
      \<and> te < horizon env \<and> (\<forall>i<te. \<not> collides env cn st0 i)
      \<and> (\<not> collides env cn st0 te \<longrightarrow> te = horizon env - 1)"
proof (cases "\<exists>ts. ts < horizon env \<and> collides env cn st0 ts")
  case True
  then obtain ts where ts: "ts < horizon env \<and> collides env cn st0 ts"
      and least: "\<forall>i<ts. \<not> (i < horizon env \<and> collides env cn st0 i)"
    using exists_least_iff [of "\<lambda>ts. ts < horizon env \<and> collides env cn st0 ts"] by blast
  have first: "\<forall>i<ts. \<not> collides env cn st0 i"
  proof (intro allI impI)
    fix i assume "i < ts"
    with ts have "i < horizon env" by simp
    with least \<open>i < ts\<close> show "\<not> collides env cn st0 i" by blast
  qed
  have "for_t env cn 0 (state_before env cn st0 0) =
      (fst (step env cn (0 + ts) (state_before env cn st0 (0 + ts))), 0 + ts, True)"
  proof (rule for_t_crash)
    show "0 + ts < horizon env" using ts by simp
    show "\<forall>i<ts. \<not> collides env cn st0 (0 + i)" using first by simp
    show "collides env cn st0 (0 + ts)" using ts by simp
  qed
  then have "for_t env cn 0 st0 = (state_before env cn st0 (Suc ts), ts, collides env cn st0 ts)"
    using ts by (simp add: collides_def)
  with ts first show ?thesis by blast
next
  case False
  then have none: "\<forall>i<horizon env. \<not> collides env cn st0 i" by blast
  obtain h where h: "horizon env = Suc h"
    using assms by (cases "horizon env") auto
  have full: "for_t env cn 0 (state_before env cn st0 0) =
      (state_before env cn st0 (horizon env), horizon env - 1, False)"
  proof (rule for_t_full)
    show "0 + horizon env = horizon env" by simp
    show "\<forall>i<horizon env. \<not> collides env cn st0 (0 + i)" using none by simp
  qed
  have nc: "\<not> collides env cn st0 h" using none h by simp
  have before: "\<forall>i<h. \<not> collides env cn st0 i" using none h by simp
  have "for_t env cn 0 st0 = (state_before env cn st0 (Suc h), h, collides env cn st0 h)"
    using full nc unfolding h by (simp del: state_before.simps(2))
  moreover have "h < horizon env" "h = horizon env - 1" using h by simp_all
  ultimately show ?thesis using before by blast
qed

lemma start_smp:
  "sX (smp (start env x0 w)) = (replicate (horizon env) (fill_X env))[0 := x0]"
  "sU (smp (start env x0 w)) = replicate (horizon env) (fill_U env)"
  "sO (smp (start env x0 w)) = replicate (horizon env) (fill_O env)"
  "xlog (start env x0 w) = [0]"
  "wld (start env x0 w) = w"
  by (simp_all add: start_def set_X_def new_sample_def)

lemma rollout_start:
  "rollout env cn (smp (start env x0 w)) w =
     (case for_t env cn 0 (start env x0 w) of
        (st, t, crashed) \<Rightarrow> (match_upto (t + 1) (smp st), t, st))"
  by (simp add: rollout_def start_def)

lemma rollout_final:
  assumes "0 < horizon env"
  shows "\<exists>te. rollout env cn (smp (start env x0 w)) w =
        (match_upto (te + 1) (smp (state_before env cn (start env x0 w) (Suc te))), te,
         state_before env cn (start env x0 w) (Suc te))
      \<and> te < horizon env \<and> (\<forall>i<te. \<not> collides env cn (start env x0 w) i)
      \<and> (\<not> collides env cn (start env x0 w) te \<longrightarrow> te = horizon env - 1)"
proof -
  from for_t_final [OF assms, of cn "start env x0 w"]
  obtain te where te: "for_t env cn 0 (start env x0 w) =
      (state_before env cn (start env x0 w) (Suc te), te, collides env cn (start env x0 w) te)"
      "te < horizon env" "\<forall>i<te. \<not> collides env cn (start env x0 w) i"
      "\<not> collides env cn (start env x0 w) te \<longrightarrow> te = horizon env - 1"
    by blast
  have "rollout env cn (smp (start env x0 w)) w =
        (match_upto (te + 1) (smp (state_before env cn (start env x0 w) (Suc te))), te,
         state_before env cn (start env x0 w) (Suc te))"
    unfolding rollout_start te(1) by simp
  with te(2-4) show ?thesis by blast
qed

lemma rollout_crash:
  assumes "ts < horizon env" "collides env cn (start env x0 w) ts"
    "\<forall>t<ts. \<not> collides env cn (start env x0 w) t"
  shows "rollout env cn (smp (start env x0 w)) w =
        (match_upto (ts + 1) (smp (state_before env cn (start env x0 w) (Suc ts))), ts,
         state_before env cn (start env x0 w) (Suc ts))"
proof -
  have "for_t env cn 0 (state_before env cn (start env x0 w) 0) =
      (fst (step env cn (0 + ts) (state_before env cn (start env x0 w) (0 + ts))), 0 + ts, True)"
  proof (rule for_t_crash)
    show "0 + ts < horizon env" using assms by simp
    show "\<forall>i<ts. \<not> collides env cn (start env x0 w) (0 + i)" using assms by simp
    show "collides env cn (start env x0 w) (0 + ts)" using assms by simp
  qed
  then show ?thesis unfolding rollout_start by simp
qed

lemma rollout_full:
  assumes "0 < horizon env" "\<forall>t<horizon env. \<not> collides env cn (start env x0 w) t"
  shows "rollout env cn (smp (start env x0 w)) w =
        (match_upto (horizon env) (smp (state_before env cn (start env x0 w) (horizon env))),
         horizon env - 1, state_before env cn (start env x0 w) (horizon env))"
proof -
  have "for_t env cn 0 (state_before env cn (start env x0 w) 0) =
      (state_before env cn (start env x0 w) (horizon env), horizon env - 1, False)"
  proof (rule for_t_full)
    show "0 + horizon env = horizon env" by simp
    show "\<forall>i<horizon env. \<not> collides env cn (start env x0 w) (0 + i)" using assms by simp
  qed
  then show ?thesis unfolding rollout_start using assms(1) by simp
qed

lemma state_before_start_lengths:
  "length (sX (smp (state_before env cn (start env x0 w) t))) = horizon env"
  "length (sU (smp (state_before env cn (start env x0 w) t))) = horizon env"
  "length (sO (smp (state_before env cn (start env x0 w) t))) = horizon env"
  by (simp_all add: state_before_lengths start_smp)

lemma xlog_after_last:
  assumes "t < horizon env" "\<forall>i<t. \<not> collides env cn (start env x0 w) i"
    "collides env cn (start env x0 w) t \<or> t = horizon env - 1"
  shows "xlog (state_before env cn (start env x0 w) (Suc t)) = [0..<Suc t]"
proof -
  have "xlog (state_before env cn (start env x0 w) t) = [0..<Suc t]"
    using assms(1,2) by (intro state_before_xlog) (simp_all add: start_smp)
  moreover have "\<not> (\<not> snd (step env cn t (state_before env cn (start env x0 w) t))
      \<and> int t < int (horizon env) - 1)"
    using assms(1,3) by (auto simp: collides_def)
  ultimately show ?thesis by (simp add: step_xlog)
qed

lemma query_state: "fst (query env cn t st) = sX (smp st) ! t"
  by (simp add: query_def Let_def get_X_def)

lemma recorded_at:
  assumes "t \<le> te" "te < horizon env" "\<forall>i<te. \<not> collides env cn (start env x0 w) i"
    and "query env cn t (state_before env cn (start env x0 w) t) = (x, (u, ob), w2)"
  shows "sU (smp (state_before env cn (start env x0 w) (Suc te))) ! t = fst (label env cn x u w2)"
    and "sO (smp (state_before env cn (start env x0 w) (Suc te))) ! t = ob"
    and "t < te \<Longrightarrow> sX (smp (state_before env cn (start env x0 w) (Suc te))) ! (t + 1) = dyn_evolve env x u"
proof -
  let ?pre = "state_before env cn (start env x0 w)"
  have le: "Suc t \<le> Suc te" using assms(1) by simp
  have len: "t < length (sU (smp (?pre t)))" "t < length (sO (smp (?pre t)))"
    using assms(1,2) by (simp_all add: state_before_start_lengths)
  have "sU (smp (?pre (Suc te))) ! t = sU (smp (?pre (Suc t))) ! t"
    using state_before_frame(1) [OF le, of t] by simp
  also have "\<dots> = fst (label env cn x u w2)"
    using len assms(4) by (simp add: step_smp)
  finally show "sU (smp (?pre (Suc te))) ! t = fst (label env cn x u w2)" .
  have "sO (smp (?pre (Suc te))) ! t = sO (smp (?pre (Suc t))) ! t"
    using state_before_frame(2) [OF le, of t] by simp
  also have "\<dots> = ob"
    using len assms(4) by (simp add: step_smp)
  finally show "sO (smp (?pre (Suc te))) ! t = ob" .
  assume lt: "t < te"
  then have nc: "\<not> snd (step env cn t (?pre t))"
    using assms(3) by (simp add: collides_def)
  have adv: "int t < int (horizon env) - 1" using lt assms(2) by simp
  have lenx: "t + 1 < length (sX (smp (?pre t)))"
    using lt assms(2) by (simp add: state_before_start_lengths)
  have "sX (smp (?pre (Suc te))) ! (t + 1) = sX (smp (?pre (Suc t))) ! (t + 1)"
    using state_before_frame(3) [OF le, of "t + 1"] by simp
  also have "\<dots> = dyn_evolve env x u"
    using nc adv lenx assms(4) by (simp add: step_smp)
  finally show "sX (smp (?pre (Suc te))) ! (t + 1) = dyn_evolve env x u" .
qed

lemma last_step_recorded:
  assumes "te < horizon env" "\<forall>i<te. \<not> collides env cn (start env x0 w) i"
  shows "case query env cn te (state_before env cn (start env x0 w) te) of
      (x, (u, ob), w2) \<Rightarrow>
        sX (match_upto (te + 1) (smp (state_before env cn (start env x0 w) (Suc te)))) ! te = x
        \<and> sU (match_upto (te + 1) (smp (state_before env cn (start env x0 w) (Suc te)))) ! te
            = fst (label env cn x u w2)
        \<and> sO (match_upto (te + 1) (smp (state_before env cn (start env x0 w) (Suc te)))) ! te
            = ob"
proof -
  let ?pre = "state_before env cn (start env x0 w)"
  obtain x u ob w2 where q: "query env cn te (?pre te) = (x, (u, ob), w2)"
    by (metis prod.exhaust)
  have le: "te \<le> te" by simp
  note rec = recorded_at [OF le assms q]
  have "sX (smp (?pre (Suc te))) ! te = sX (smp (?pre te)) ! te"
    using state_before_frame(3) [of te "Suc te" te] by simp
  also have "\<dots> = x" using query_state [of env cn te "?pre te"] q by simp
  finally have x: "sX (smp (?pre (Suc te))) ! te = x" .
  show ?thesis
    unfolding q using x rec(1,2) by (simp add: match_upto_def del: state_before.simps)
qed

subsection \<open>Truncation of a rollout (C5)\<close>

text \<open>
  C5. For every rollout with horizon \<open>T\<close>: if the terminal predicate first fires at a
  timestep \<open>ts < T\<close>, the loop ends in the state that the body of timestep \<open>ts\<close>
  leaves, the state, the label and the observation of \<open>ts\<close> are in the sample, the
  sample has length exactly \<open>ts + 1\<close>, and \<open>set_X\<close> was called for the timesteps
  \<open>0, ..., ts\<close> and for no other; if the predicate never fires (and \<open>T > 0\<close>, without
  which there is no rollout), the loop ends after the body of timestep \<open>T - 1\<close>, whose
  state, label and observation are in the sample, and the sample has length exactly
  \<open>T\<close>.
\<close>

theorem rollout_truncation:
  "(ts < horizon env \<and> collides env cn (start env x0 w) ts
      \<and> (\<forall>t<ts. \<not> collides env cn (start env x0 w) t) \<longrightarrow>
      (case rollout env cn (smp (start env x0 w)) w of
         (sample, te, st) \<Rightarrow>
           te = ts \<and> length (sX sample) = ts + 1 \<and> length (sU sample) = ts + 1
           \<and> length (sO sample) = ts + 1 \<and> xlog st = [0..<ts + 1]
           \<and> st = fst (step env cn ts (state_before env cn (start env x0 w) ts))
           \<and> (case query env cn ts (state_before env cn (start env x0 w) ts) of
                (x, (u, ob), w2) \<Rightarrow>
                  sX sample ! ts = x \<and> sU sample ! ts = fst (label env cn x u w2)
                  \<and> sO sample ! ts = ob)))
   \<and> (0 < horizon env \<and> (\<forall>t<horizon env. \<not> collides env cn (start env x0 w) t) \<longrightarrow>
      (case rollout env cn (smp (start env x0 w)) w of
         (sample, te, st) \<Rightarrow>
           te = horizon env - 1 \<and> length (sX sample) = horizon env
           \<and> length (sU sample) = horizon env \<and> length (sO sample) = horizon env
           \<and> xlog st = [0..<horizon env]
           \<and> st = fst (step env cn (horizon env - 1)
                         (state_before env cn (start env x0 w) (horizon env - 1)))
           \<and> (case query env cn (horizon env - 1)
                       (state_before env cn (start env x0 w) (horizon env - 1)) of
                (x, (u, ob), w2) \<Rightarrow>
                  sX sample ! (horizon env - 1) = x
                  \<and> sU sample ! (horizon env - 1) = fst (label env cn x u w2)
                  \<and> sO sample ! (horizon env - 1) = ob)))"
proof (intro conjI impI)
  assume a: "ts < horizon env \<and> collides env cn (start env x0 w) ts
      \<and> (\<forall>t<ts. \<not> collides env cn (start env x0 w) t)"
  then have r: "rollout env cn (smp (start env x0 w)) w =
        (match_upto (ts + 1) (smp (state_before env cn (start env x0 w) (Suc ts))), ts,
         state_before env cn (start env x0 w) (Suc ts))"
    by (intro rollout_crash) simp_all
  have x: "xlog (state_before env cn (start env x0 w) (Suc ts)) = [0..<Suc ts]"
    using a by (intro xlog_after_last) simp_all
  have s: "state_before env cn (start env x0 w) (Suc ts) =
      fst (step env cn ts (state_before env cn (start env x0 w) ts))"
    by simp
  have l: "case query env cn ts (state_before env cn (start env x0 w) ts) of
      (x, (u, ob), w2) \<Rightarrow>
        sX (match_upto (ts + 1) (smp (state_before env cn (start env x0 w) (Suc ts)))) ! ts = x
        \<and> sU (match_upto (ts + 1) (smp (state_before env cn (start env x0 w) (Suc ts)))) ! ts
            = fst (label env cn x u w2)
        \<and> sO (match_upto (ts + 1) (smp (state_before env cn (start env x0 w) (Suc ts)))) ! ts
            = ob"
    using a by (intro last_step_recorded) simp_all
  show "case rollout env cn (smp (start env x0 w)) w of
         (sample, te, st) \<Rightarrow>
           te = ts \<and> length (sX sample) = ts + 1 \<and> length (sU sample) = ts + 1
           \<and> length (sO sample) = ts + 1 \<and> xlog st = [0..<ts + 1]
           \<and> st = fst (step env cn ts (state_before env cn (start env x0 w) ts))
           \<and> (case query env cn ts (state_before env cn (start env x0 w) ts) of
                (x, (u, ob), w2) \<Rightarrow>
                  sX sample ! ts = x \<and> sU sample ! ts = fst (label env cn x u w2)
                  \<and> sO sample ! ts = ob)"
    unfolding r prod.case
  proof (intro conjI)
    show "ts = ts" by simp
    show "length (sX (match_upto (ts + 1) (smp (state_before env cn (start env x0 w) (Suc ts)))))
        = ts + 1"
      using a by (simp add: match_upto_def state_before_start_lengths del: state_before.simps)
    show "length (sU (match_upto (ts + 1) (smp (state_before env cn (start env x0 w) (Suc ts)))))
        = ts + 1"
      using a by (simp add: match_upto_def state_before_start_lengths del: state_before.simps)
    show "length (sO (match_upto (ts + 1) (smp (state_before env cn (start env x0 w) (Suc ts)))))
        = ts + 1"
      using a by (simp add: match_upto_def state_before_start_lengths del: state_before.simps)
    show "xlog (state_before env cn (start env x0 w) (Suc ts)) = [0..<ts + 1]"
      using x by simp
    show "state_before env cn (start env x0 w) (Suc ts) =
      fst (step env cn ts (state_before env cn (start env x0 w) ts))"
      by (rule s)
    show "case query env cn ts (state_before env cn (start env x0 w) ts) of
      (x, (u, ob), w2) \<Rightarrow>
        sX (match_upto (ts + 1) (smp (state_before env cn (start env x0 w) (Suc ts)))) ! ts = x
        \<and> sU (match_upto (ts + 1) (smp (state_before env cn (start env x0 w) (Suc ts)))) ! ts
            = fst (label env cn x u w2)
        \<and> sO (match_upto (ts + 1) (smp (state_before env cn (start env x0 w) (Suc ts)))) ! ts
            = ob"
      by (rule l)
  qed
next
  assume a: "0 < horizon env \<and> (\<forall>t<horizon env. \<not> collides env cn (start env x0 w) t)"
  then obtain h where h: "horizon env = Suc h" by (cases "horizon env") auto
  from a have r: "rollout env cn (smp (start env x0 w)) w =
        (match_upto (horizon env) (smp (state_before env cn (start env x0 w) (horizon env))),
         horizon env - 1, state_before env cn (start env x0 w) (horizon env))"
    by (intro rollout_full) simp_all
  have x: "xlog (state_before env cn (start env x0 w) (Suc h)) = [0..<Suc h]"
    using a h by (intro xlog_after_last) simp_all
  have l: "case query env cn h (state_before env cn (start env x0 w) h) of
      (x, (u, ob), w2) \<Rightarrow>
        sX (match_upto (h + 1) (smp (state_before env cn (start env x0 w) (Suc h)))) ! h = x
        \<and> sU (match_upto (h + 1) (smp (state_before env cn (start env x0 w) (Suc h)))) ! h
            = fst (label env cn x u w2)
        \<and> sO (match_upto (h + 1) (smp (state_before env cn (start env x0 w) (Suc h)))) ! h
            = ob"
    using a h by (intro last_step_recorded) simp_all
  show "case rollout env cn (smp (start env x0 w)) w of
         (sample, te, st) \<Rightarrow>
           te = horizon env - 1 \<and> length (sX sample) = horizon env
           \<and> length (sU sample) = horizon env \<and> length (sO sample) = horizon env
           \<and> xlog st = [0..<horizon env]
           \<and> st = fst (step env cn (horizon env - 1)
                         (state_before env cn (start env x0 w) (horizon env - 1)))
           \<and> (case query env cn (horizon env - 1)
                       (state_before env cn (start env x0 w) (horizon env - 1)) of
                (x, (u, ob), w2) \<Rightarrow>
                  sX sample ! (horizon env - 1) = x
                  \<and> sU sample ! (horizon env - 1) = fst (label env cn x u w2)
                  \<and> sO sample ! (horizon env - 1) = ob)"
    unfolding r prod.case h diff_Suc_1
  proof (intro conjI)
    show "h = h" by simp
    show "length (sX (match_upto (Suc h) (smp (state_before env cn (start env x0 w) (Suc h)))))
        = Suc h"
      using h by (simp add: match_upto_def state_before_start_lengths del: state_before.simps)
    show "length (sU (match_upto (Suc h) (smp (state_before env cn (start env x0 w) (Suc h)))))
        = Suc h"
      using h by (simp add: match_upto_def state_before_start_lengths del: state_before.simps)
    show "length (sO (match_upto (Suc h) (smp (state_before env cn (start env x0 w) (Suc h)))))
        = Suc h"
      using h by (simp add: match_upto_def state_before_start_lengths del: state_before.simps)
    show "xlog (state_before env cn (start env x0 w) (Suc h)) = [0..<Suc h]"
      by (rule x)
    show "state_before env cn (start env x0 w) (Suc h) =
      fst (step env cn h (state_before env cn (start env x0 w) h))"
      by simp
    show "case query env cn h (state_before env cn (start env x0 w) h) of
      (x, (u, ob), w2) \<Rightarrow>
        sX (match_upto (Suc h) (smp (state_before env cn (start env x0 w) (Suc h)))) ! h = x
        \<and> sU (match_upto (Suc h) (smp (state_before env cn (start env x0 w) (Suc h)))) ! h
            = fst (label env cn x u w2)
        \<and> sO (match_upto (Suc h) (smp (state_before env cn (start env x0 w) (Suc h)))) ! h
            = ob"
      using l by simp
  qed
qed

subsection \<open>Recorded label and executed action (C4)\<close>

text \<open>
  C4. For every timestep \<open>t\<close> of a rollout, let \<open>x\<close> be the state read at \<open>t\<close> and
  \<open>u\<close>, \<open>ob\<close> the action and the observation the controller returns for \<open>x\<close> under
  the rollout's noise. If labels carry the noise, or the noise object is \<open>False\<close>, the
  action recorded at \<open>t\<close> is \<open>u\<close>; otherwise it is the action of a second query at the
  same state \<open>x\<close> with \<open>ZeroNoise\<close>. The observation recorded at \<open>t\<close> is \<open>ob\<close>, and
  the state recorded at \<open>t + 1\<close>, when the rollout goes on, is \<open>evolve x u\<close>: it is
  advanced with the executed action.
\<close>

theorem recorded_label:
  assumes "0 < horizon env"
    and "rollout env cn (smp (start env x0 w)) w = (sample, te, st)"
    and "t \<le> te"
  shows "case query env cn t (state_before env cn (start env x0 w) t) of
      (x, (u, ob), w2) \<Rightarrow>
        sU sample ! t =
          (if label_with_noise env \<or> cn = NoiseFalse then u
           else fst (fst (sample_policy env x (NoiseObj ZeroNoise) w2)))
        \<and> sO sample ! t = ob
        \<and> (t < te \<longrightarrow> sX sample ! (t + 1) = dyn_evolve env x u)"
proof -
  let ?pre = "state_before env cn (start env x0 w)"
  from rollout_final [OF assms(1), of cn x0 w] assms(2)
  have s: "sample = match_upto (te + 1) (smp (?pre (Suc te)))"
    and te: "te < horizon env" "\<forall>i<te. \<not> collides env cn (start env x0 w) i"
    by auto
  obtain x u ob w2 where q: "query env cn t (?pre t) = (x, (u, ob), w2)"
    by (metis prod.exhaust)
  note rec = recorded_at [OF assms(3) te q]
  have lab: "fst (label env cn x u w2) =
      (if label_with_noise env \<or> cn = NoiseFalse then u
       else fst (fst (sample_policy env x (NoiseObj ZeroNoise) w2)))"
    by (simp add: label_def split: prod.splits)
  have "sU sample ! t = fst (label env cn x u w2)"
    unfolding s using rec(1) assms(3) by (simp add: match_upto_def del: state_before.simps)
  moreover have "sO sample ! t = ob"
    unfolding s using rec(2) assms(3) by (simp add: match_upto_def del: state_before.simps)
  moreover have "t < te \<longrightarrow> sX sample ! (t + 1) = dyn_evolve env x u"
    unfolding s using rec(3) by (simp add: match_upto_def del: state_before.simps)
  ultimately show ?thesis unfolding q using lab by simp
qed

lemma rccar_state_constant:
  assumes "dyn_evolve env = rccar_evolve" "k < horizon env"
    "\<forall>i<k. \<not> collides env cn (start env x0 w) i"
  shows "\<forall>i\<le>k. sX (smp (state_before env cn (start env x0 w) k)) ! i = x0"
  using assms(2,3)
proof (induction k)
  case 0
  then show ?case by (simp add: start_smp)
next
  case (Suc k)
  let ?pre = "state_before env cn (start env x0 w)"
  from Suc have IH: "\<forall>i\<le>k. sX (smp (?pre k)) ! i = x0" by simp
  show ?case
  proof (intro allI impI)
    fix i assume i: "i \<le> Suc k"
    show "sX (smp (?pre (Suc k))) ! i = x0"
    proof (cases "i = Suc k")
      case True
      obtain x u ob w2 where q: "query env cn k (?pre k) = (x, (u, ob), w2)"
        by (metis prod.exhaust)
      have "x = x0" using query_state [of env cn k "?pre k"] q IH by simp
      moreover have "k \<le> k" "\<forall>i<k. \<not> collides env cn (start env x0 w) i" "k < horizon env"
        using Suc.prems by simp_all
      moreover have "k < Suc k" by simp
      moreover have "\<not> snd (step env cn k (?pre k))"
        using Suc.prems(2) by (simp add: collides_def)
      moreover have "k + 1 < length (sX (smp (?pre k)))"
        using Suc.prems(1) by (simp add: state_before_start_lengths)
      ultimately show ?thesis
        using True q Suc.prems(1) assms(1)
        by (simp add: step_smp rccar_evolve_def evolve_def)
    next
      case False
      with i have "i \<le> k" by simp
      then have "sX (smp (?pre (Suc k))) ! i = sX (smp (?pre k)) ! i"
        using state_before_frame(3) [of k "Suc k" i] by simp
      with IH \<open>i \<le> k\<close> show ?thesis by simp
    qed
  qed
qed

subsection \<open>RC-car dynamics (C10)\<close>

text \<open>
  C10. For every state \<open>x\<close>, control \<open>u\<close> and values of the three optional arguments,
  \<open>evolve\<close> returns \<open>x\<close>; so in a rollout whose dynamics is the RC car's, the state
  recorded at every timestep of the sample is the initial state.
\<close>

theorem rccar_dynamics_identity:
  "evolve x u fx fu f0 = x
   \<and> (0 < horizon env \<and> dyn_evolve env = rccar_evolve
        \<and> rollout env cn (smp (start env x0 w)) w = (sample, te, st)
      \<longrightarrow> (\<forall>t\<le>te. sX sample ! t = x0))"
proof (intro conjI impI)
  show "evolve x u fx fu f0 = x" by (simp add: evolve_def)
next
  assume a: "0 < horizon env \<and> dyn_evolve env = rccar_evolve
        \<and> rollout env cn (smp (start env x0 w)) w = (sample, te, st)"
  let ?pre = "state_before env cn (start env x0 w)"
  from rollout_final [of env cn x0 w] a
  have s: "sample = match_upto (te + 1) (smp (?pre (Suc te)))"
    and te: "te < horizon env" "\<forall>i<te. \<not> collides env cn (start env x0 w) i"
    by auto
  from a te have c: "\<forall>i\<le>te. sX (smp (?pre te)) ! i = x0"
    by (intro rccar_state_constant) simp_all
  show "\<forall>t\<le>te. sX sample ! t = x0"
  proof (intro allI impI)
    fix t assume t: "t \<le> te"
    have "sX sample ! t = sX (smp (?pre (Suc te))) ! t"
      unfolding s using t by (simp add: match_upto_def del: state_before.simps)
    also have "\<dots> = sX (smp (?pre te)) ! t"
      using state_before_frame(3) [of te "Suc te" t] t by simp
    also have "\<dots> = x0" using c t by simp
    finally show "sX sample ! t = x0" .
  qed
qed

lemma step_never_crashes:
  assumes "\<forall>s t w. \<not> fst (is_collision env s t w)"
  shows "\<not> snd (step env cn t st)"
proof -
  obtain x0 u ob w2 where q: "query env cn t st = (x0, (u, ob), w2)"
    by (metis prod.exhaust)
  obtain ul w3 where l: "label env cn x0 u w2 = (ul, w3)"
    by (metis prod.exhaust)
  obtain c w4 where c: "is_collision env (set_O ob t (set_U ul t (smp st))) t w3 = (c, w4)"
    by (metis prod.exhaust)
  from assms c have "\<not> c" by (metis fst_conv)
  then show ?thesis by (simp add: step_def q l c Let_def)
qed

lemma demo_rollout:
  "rollout demo_env (NoiseObj GaussianNoise) (smp (start demo_env 0 0)) 0 =
     (\<lparr>sX = [0, 11, 22], sU = [10, 10, 10], sO = [100, 111, 122]\<rparr>, 2,
      \<lparr>smp = \<lparr>sX = [0, 11, 22, 0, 0], sU = [10, 10, 10, 0, 0], sO = [100, 111, 122, 0, 0]\<rparr>,
       wld = 0, xlog = [0, 1, 2]\<rparr>)"
  by code_simp


text \<open>
  The theorem on the small world from state 0, where the collision is first reported at
  timestep 2 (state 22, executed action 11, recorded label 10, observation 122), and on
  the world without collisions.
\<close>

theorem rollout_truncation_witness:
  "(2::nat) < horizon demo_env
   \<and> collides demo_env (NoiseObj GaussianNoise) (start demo_env 0 0) 2
   \<and> \<not> collides demo_env (NoiseObj GaussianNoise) (start demo_env 0 0) 0
   \<and> \<not> collides demo_env (NoiseObj GaussianNoise) (start demo_env 0 0) 1
   \<and> rollout demo_env (NoiseObj GaussianNoise) (smp (start demo_env 0 0)) 0 =
     (\<lparr>sX = [0, 11, 22], sU = [10, 10, 10], sO = [100, 111, 122]\<rparr>, 2,
      \<lparr>smp = \<lparr>sX = [0, 11, 22, 0, 0], sU = [10, 10, 10, 0, 0], sO = [100, 111, 122, 0, 0]\<rparr>,
       wld = 0, xlog = [0, 1, 2]\<rparr>)
   \<and> query demo_env (NoiseObj GaussianNoise) 2
        (state_before demo_env (NoiseObj GaussianNoise) (start demo_env 0 0) 2) = (22, (11, 122), 0)
   \<and> label demo_env (NoiseObj GaussianNoise) 22 11 0 = (10, 0)
   \<and> sX \<lparr>sX = [0, 11, 22], sU = [10::int, 10, 10], sO = [100::int, 111, 122]\<rparr> ! 2 = (22::int)
   \<and> sU \<lparr>sX = [0::int, 11, 22], sU = [10, 10, 10], sO = [100::int, 111, 122]\<rparr> ! 2 = (10::int)
   \<and> sO \<lparr>sX = [0::int, 11, 22], sU = [10::int, 10, 10], sO = [100, 111, 122]\<rparr> ! 2 = (122::int)
   \<and> (case rollout demo_env (NoiseObj GaussianNoise) (smp (start demo_env 0 0)) 0 of
         (sample, te, st) \<Rightarrow>
           te = 2 \<and> length (sX sample) = 2 + 1 \<and> length (sU sample) = 2 + 1
           \<and> length (sO sample) = 2 + 1 \<and> xlog st = [0..<2 + 1]
           \<and> st = fst (step demo_env (NoiseObj GaussianNoise) 2
                  (state_before demo_env (NoiseObj GaussianNoise) (start demo_env 0 0) 2))
           \<and> (case query demo_env (NoiseObj GaussianNoise) 2
                  (state_before demo_env (NoiseObj GaussianNoise) (start demo_env 0 0) 2) of
                (x, (u, ob), w2) \<Rightarrow>
                  sX sample ! 2 = x
                  \<and> sU sample ! 2 = fst (label demo_env (NoiseObj GaussianNoise) x u w2)
                  \<and> sO sample ! 2 = ob))
   \<and> 0 < horizon demo_full
   \<and> (case rollout demo_full (NoiseObj GaussianNoise) (smp (start demo_full 0 0)) 0 of
         (sample, te, st) \<Rightarrow>
           te = horizon demo_full - 1 \<and> length (sX sample) = horizon demo_full
           \<and> length (sU sample) = horizon demo_full \<and> length (sO sample) = horizon demo_full
           \<and> xlog st = [0..<horizon demo_full]
           \<and> st = fst (step demo_full (NoiseObj GaussianNoise) (horizon demo_full - 1)
                  (state_before demo_full (NoiseObj GaussianNoise) (start demo_full 0 0)
                     (horizon demo_full - 1)))
           \<and> (case query demo_full (NoiseObj GaussianNoise) (horizon demo_full - 1)
                  (state_before demo_full (NoiseObj GaussianNoise) (start demo_full 0 0)
                     (horizon demo_full - 1)) of
                (x, (u, ob), w2) \<Rightarrow>
                  sX sample ! (horizon demo_full - 1) = x
                  \<and> sU sample ! (horizon demo_full - 1)
                      = fst (label demo_full (NoiseObj GaussianNoise) x u w2)
                  \<and> sO sample ! (horizon demo_full - 1) = ob))"
proof -
  have h: "(2::nat) < horizon demo_env" "0 < horizon demo_full" by code_simp+
  have c: "collides demo_env (NoiseObj GaussianNoise) (start demo_env 0 0) 2"
    "\<not> collides demo_env (NoiseObj GaussianNoise) (start demo_env 0 0) 0"
    "\<not> collides demo_env (NoiseObj GaussianNoise) (start demo_env 0 0) 1"
    by code_simp+
  have q: "query demo_env (NoiseObj GaussianNoise) 2
        (state_before demo_env (NoiseObj GaussianNoise) (start demo_env 0 0) 2) = (22, (11, 122), 0)"
    by code_simp
  have lab: "label demo_env (NoiseObj GaussianNoise) 22 11 0 = (10, 0)"
    by code_simp
  have first: "\<forall>t<2. \<not> collides demo_env (NoiseObj GaussianNoise) (start demo_env 0 0) t"
    using c(2,3) by (auto simp: less_2_cases_iff)
  have never: "\<forall>t<horizon demo_full.
      \<not> collides demo_full (NoiseObj GaussianNoise) (start demo_full 0 0) t"
    by (simp add: collides_def step_never_crashes demo_full_def)
  note inst1 = rollout_truncation [where env = demo_env and cn = "NoiseObj GaussianNoise"
      and ts = 2 and ?x0.0 = 0 and w = 0]
  note inst2 = rollout_truncation [where env = demo_full and cn = "NoiseObj GaussianNoise"
      and ?x0.0 = 0 and w = 0]
  have 1: "case rollout demo_env (NoiseObj GaussianNoise) (smp (start demo_env 0 0)) 0 of
         (sample, te, st) \<Rightarrow>
           te = 2 \<and> length (sX sample) = 2 + 1 \<and> length (sU sample) = 2 + 1
           \<and> length (sO sample) = 2 + 1 \<and> xlog st = [0..<2 + 1]
           \<and> st = fst (step demo_env (NoiseObj GaussianNoise) 2
                  (state_before demo_env (NoiseObj GaussianNoise) (start demo_env 0 0) 2))
           \<and> (case query demo_env (NoiseObj GaussianNoise) 2
                  (state_before demo_env (NoiseObj GaussianNoise) (start demo_env 0 0) 2) of
                (x, (u, ob), w2) \<Rightarrow>
                  sX sample ! 2 = x
                  \<and> sU sample ! 2 = fst (label demo_env (NoiseObj GaussianNoise) x u w2)
                  \<and> sO sample ! 2 = ob)"
    by (rule inst1 [THEN conjunct1, rule_format, OF conjI [OF h(1) conjI [OF c(1) first]]])
  have rec: "sX \<lparr>sX = [0, 11, 22], sU = [10::int, 10, 10], sO = [100::int, 111, 122]\<rparr> ! 2 = (22::int)
      \<and> sU \<lparr>sX = [0::int, 11, 22], sU = [10, 10, 10], sO = [100::int, 111, 122]\<rparr> ! 2 = (10::int)
      \<and> sO \<lparr>sX = [0::int, 11, 22], sU = [10::int, 10, 10], sO = [100, 111, 122]\<rparr> ! 2 = (122::int)"
    using 1 unfolding demo_rollout q lab by simp
  have 2: "case rollout demo_full (NoiseObj GaussianNoise) (smp (start demo_full 0 0)) 0 of
         (sample, te, st) \<Rightarrow>
           te = horizon demo_full - 1 \<and> length (sX sample) = horizon demo_full
           \<and> length (sU sample) = horizon demo_full \<and> length (sO sample) = horizon demo_full
           \<and> xlog st = [0..<horizon demo_full]
           \<and> st = fst (step demo_full (NoiseObj GaussianNoise) (horizon demo_full - 1)
                  (state_before demo_full (NoiseObj GaussianNoise) (start demo_full 0 0)
                     (horizon demo_full - 1)))
           \<and> (case query demo_full (NoiseObj GaussianNoise) (horizon demo_full - 1)
                  (state_before demo_full (NoiseObj GaussianNoise) (start demo_full 0 0)
                     (horizon demo_full - 1)) of
                (x, (u, ob), w2) \<Rightarrow>
                  sX sample ! (horizon demo_full - 1) = x
                  \<and> sU sample ! (horizon demo_full - 1)
                      = fst (label demo_full (NoiseObj GaussianNoise) x u w2)
                  \<and> sO sample ! (horizon demo_full - 1) = ob)"
    by (rule inst2 [THEN conjunct2, rule_format, OF conjI [OF h(2) never]])
  from rec have r1: "sX \<lparr>sX = [0, 11, 22], sU = [10::int, 10, 10], sO = [100::int, 111, 122]\<rparr> ! 2 = (22::int)"
    and r2: "sU \<lparr>sX = [0::int, 11, 22], sU = [10, 10, 10], sO = [100::int, 111, 122]\<rparr> ! 2 = (10::int)"
    and r3: "sO \<lparr>sX = [0::int, 11, 22], sU = [10::int, 10, 10], sO = [100, 111, 122]\<rparr> ! 2 = (122::int)"
    by blast+
  show ?thesis by (intro conjI h c demo_rollout q lab r1 r2 r3 1 2)
qed

text \<open>
  The theorem at timestep 1 of the rollout from state 0: the state is 11, the executed
  action 11, the recorded label the nominal 10, and the next state 22.
\<close>

theorem recorded_label_witness:
  "0 < horizon demo_env
   \<and> rollout demo_env (NoiseObj GaussianNoise) (smp (start demo_env 0 0)) 0 =
     (\<lparr>sX = [0, 11, 22], sU = [10, 10, 10], sO = [100, 111, 122]\<rparr>, 2,
      \<lparr>smp = \<lparr>sX = [0, 11, 22, 0, 0], sU = [10, 10, 10, 0, 0], sO = [100, 111, 122, 0, 0]\<rparr>,
       wld = 0, xlog = [0, 1, 2]\<rparr>)
   \<and> (1::nat) \<le> 2
   \<and> query demo_env (NoiseObj GaussianNoise) 1
        (state_before demo_env (NoiseObj GaussianNoise) (start demo_env 0 0) 1) = (11, (11, 111), 0)
   \<and> sample_policy demo_env 11 (NoiseObj ZeroNoise) 0 = ((10, 111), 0)
   \<and> sU \<lparr>sX = [0, 11, 22], sU = [10, 10, 10], sO = [100, 111, 122]\<rparr> ! 1 = (10::int)
   \<and> sX \<lparr>sX = [0, 11, 22], sU = [10::int, 10, 10], sO = [100::int, 111, 122]\<rparr> ! (1 + 1)
       = dyn_evolve demo_env 11 11"
proof -
  have h: "0 < horizon demo_env" "(1::nat) \<le> 2" by code_simp+
  have q: "query demo_env (NoiseObj GaussianNoise) 1
        (state_before demo_env (NoiseObj GaussianNoise) (start demo_env 0 0) 1) = (11, (11, 111), 0)"
    by code_simp
  have z: "sample_policy demo_env 11 (NoiseObj ZeroNoise) 0 = ((10, 111), 0)"
    "\<not> label_with_noise demo_env"
    by code_simp+
  from recorded_label [OF h(1) demo_rollout h(2)]
  have "sU \<lparr>sX = [0, 11, 22], sU = [10, 10, 10], sO = [100, 111, 122]\<rparr> ! 1 = (10::int)
      \<and> sX \<lparr>sX = [0, 11, 22], sU = [10::int, 10, 10], sO = [100::int, 111, 122]\<rparr> ! (1 + 1)
       = dyn_evolve demo_env 11 11"
    unfolding q using z by simp
  with h q z demo_rollout show ?thesis by blast
qed

lemma demo_rccar_rollout:
  "rollout demo_rccar (NoiseObj GaussianNoise) (smp (start demo_rccar 7 0)) 0 =
     (\<lparr>sX = [7, 7, 7, 7, 7], sU = [10, 10, 10, 10, 10], sO = [107, 107, 107, 107, 107]\<rparr>, 4,
      \<lparr>smp = \<lparr>sX = [7, 7, 7, 7, 7], sU = [10, 10, 10, 10, 10],
              sO = [107, 107, 107, 107, 107]\<rparr>,
       wld = 0, xlog = [0, 1, 2, 3, 4]\<rparr>)"
  by code_simp

text \<open>The theorem on the small world with the RC-car dynamics, from state 7.\<close>

theorem rccar_dynamics_identity_witness:
  "0 < horizon demo_rccar \<and> dyn_evolve demo_rccar = rccar_evolve
   \<and> rollout demo_rccar (NoiseObj GaussianNoise) (smp (start demo_rccar 7 0)) 0 =
     (\<lparr>sX = [7, 7, 7, 7, 7], sU = [10, 10, 10, 10, 10], sO = [107, 107, 107, 107, 107]\<rparr>, 4,
      \<lparr>smp = \<lparr>sX = [7, 7, 7, 7, 7], sU = [10, 10, 10, 10, 10],
              sO = [107, 107, 107, 107, 107]\<rparr>,
       wld = 0, xlog = [0, 1, 2, 3, 4]\<rparr>)
   \<and> sX \<lparr>sX = [7, 7, 7, 7, 7], sU = [10::int, 10, 10, 10, 10],
          sO = [107::int, 107, 107, 107, 107]\<rparr> ! 4 = (7::int)
   \<and> evolve (7::int) (11::int) (None :: unit option) (None :: unit option) (None :: unit option) = 7"
proof -
  have h: "0 < horizon demo_rccar" by code_simp
  have d: "dyn_evolve demo_rccar = rccar_evolve" by (simp add: demo_rccar_def)
  have e: "evolve (7::int) (11::int) (None :: unit option) (None :: unit option)
      (None :: unit option) = 7"
    by (rule rccar_dynamics_identity [THEN conjunct1])
  have "\<forall>t\<le>4. sX \<lparr>sX = [7, 7, 7, 7, 7], sU = [10::int, 10, 10, 10, 10],
          sO = [107::int, 107, 107, 107, 107]\<rparr> ! t = (7::int)"
    using rccar_dynamics_identity [THEN conjunct2, rule_format,
        OF conjI [OF h conjI [OF d demo_rccar_rollout]]]
    by blast
  then have "sX \<lparr>sX = [7, 7, 7, 7, 7], sU = [10::int, 10, 10, 10, 10],
          sO = [107::int, 107, 107, 107, 107]\<rparr> ! 4 = (7::int)"
    by simp
  with h d e demo_rccar_rollout show ?thesis by blast
qed

subsection \<open>The repetition loop\<close>

lemma attempt_no_horizon:
  assumes "horizon env = 0"
  shows "attempt env itr cond rep w = Inl IndexError"
  using assms by (simp add: attempt_def init_sample_def Let_def split: prod.splits)

lemma rep_loop_reject:
  assumes "rep < cond_repeats env" "attempt env itr cond rep w = Inr r" "\<not> tr_good r"
  shows "rep_loop env itr cond rep (a, w) =
     rep_loop env itr cond rep (a\<lparr>warnings := warnings a + 1\<rparr>, tr_world r)"
  using assms by (subst rep_loop.simps) simp

lemma rep_loop_accept:
  assumes "rep < cond_repeats env" "attempt env itr cond rep w = Inr r" "tr_good r"
    "isfinite env (tr_sample r)"
  shows "rep_loop env itr cond rep (a, w) =
     rep_loop env itr cond (rep + 1)
       (a\<lparr>samples := samples a @ [tr_sample r],
          world_infos := world_infos a @ [tr_world_info r],
          mpc_infos := mpc_infos a @ [tr_mpc_info r]\<rparr>, tr_world r)"
  using assms by (subst rep_loop.simps) (simp add: Let_def)

lemma rep_loop_abort:
  assumes "rep < cond_repeats env" "attempt env itr cond rep w = Inr r" "tr_good r"
    "\<not> isfinite env (tr_sample r)"
  shows "rep_loop env itr cond rep (a, w) = Some (Inl AssertionError)"
  using assms by (subst rep_loop.simps) (simp add: Let_def)

lemma rep_loop_raise:
  assumes "rep < cond_repeats env" "attempt env itr cond rep w = Inl e"
  shows "rep_loop env itr cond rep (a, w) = Some (Inl e)"
  using assms by (subst rep_loop.simps) simp

lemma rep_loop_exit:
  assumes "\<not> rep < cond_repeats env"
  shows "rep_loop env itr cond rep aw = Some (Inr aw)"
  using assms by (subst rep_loop.simps) simp


lemma rep_loop_count:
  assumes "rep_loop env itr cond rep aw = Some y"
  shows "\<forall>aw'. y = Inr aw' \<longrightarrow> rep \<le> cond_repeats env \<longrightarrow>
      length (samples (fst aw')) = length (samples (fst aw)) + (cond_repeats env - rep)"
proof (rule rep_loop.raw_induct [where P = "\<lambda>env itr cond rep aw y.
      \<forall>aw'. y = Inr aw' \<longrightarrow> rep \<le> cond_repeats env \<longrightarrow>
      length (samples (fst aw')) = length (samples (fst aw)) + (cond_repeats env - rep)",
      OF _ assms])
  fix rl :: "('a, 'b, 'c, 'd, 'e) collab \<Rightarrow> nat \<Rightarrow> nat \<Rightarrow> nat
    \<Rightarrow> ('a, 'b, 'c, 'd) acc \<times> 'e \<Rightarrow> (error + ('a, 'b, 'c, 'd) acc \<times> 'e) option"
  fix env itr cond rep aw y
  assume IH: "\<And>env itr cond rep aw y. rl env itr cond rep aw = Some y \<Longrightarrow>
      \<forall>aw'. y = Inr aw' \<longrightarrow> rep \<le> cond_repeats env \<longrightarrow>
      length (samples (fst aw')) = length (samples (fst aw)) + (cond_repeats env - rep)"
  assume body: "(if rep < cond_repeats env
      then case attempt env itr cond rep (snd aw) of
             Inl e \<Rightarrow> Some (Inl e)
           | Inr r \<Rightarrow>
               if \<not> tr_good r
               then rl env itr cond rep
                      ((fst aw)\<lparr>warnings := warnings (fst aw) + 1\<rparr>, tr_world r)
               else
                 let a = (fst aw)\<lparr>samples := samples (fst aw) @ [tr_sample r],
                                   world_infos := world_infos (fst aw) @ [tr_world_info r],
                                   mpc_infos := mpc_infos (fst aw) @ [tr_mpc_info r]\<rparr>
                 in if \<not> isfinite env (last (samples a)) then Some (Inl AssertionError)
                    else rl env itr cond (rep + 1) (a, tr_world r)
      else Some (Inr aw)) = Some y"
  show "\<forall>aw'. y = Inr aw' \<longrightarrow> rep \<le> cond_repeats env \<longrightarrow>
      length (samples (fst aw')) = length (samples (fst aw)) + (cond_repeats env - rep)"
  proof (intro allI impI)
    fix aw' assume y: "y = Inr aw'" and le: "rep \<le> cond_repeats env"
    show "length (samples (fst aw')) = length (samples (fst aw)) + (cond_repeats env - rep)"
    proof (cases "rep < cond_repeats env")
      case False
      with body y le show ?thesis by simp
    next
      case True
      show ?thesis
      proof (cases "attempt env itr cond rep (snd aw)")
        case (Inl e)
        with body True y show ?thesis by simp
      next
        case (Inr r)
        show ?thesis
        proof (cases "tr_good r")
          case False
          with body True Inr
          have "rl env itr cond rep ((fst aw)\<lparr>warnings := warnings (fst aw) + 1\<rparr>, tr_world r)
              = Some y" by simp
          from IH [OF this] y le show ?thesis by simp
        next
          case good: True
          let ?a = "(fst aw)\<lparr>samples := samples (fst aw) @ [tr_sample r],
                               world_infos := world_infos (fst aw) @ [tr_world_info r],
                               mpc_infos := mpc_infos (fst aw) @ [tr_mpc_info r]\<rparr>"
          from body True Inr good y
          have "rl env itr cond (rep + 1) (?a, tr_world r) = Some y"
            by (simp add: Let_def split: if_splits)
          from IH [OF this] y True show ?thesis by simp
        qed
      qed
    qed
  qed
qed

lemma cond_loop_count:
  assumes "cond_loop env itr conds aw = Some (Inr aw')"
  shows "length (samples (fst aw')) = length (samples (fst aw)) + length conds * cond_repeats env"
  using assms
proof (induction conds arbitrary: aw)
  case Nil
  then show ?case by simp
next
  case (Cons c conds)
  from Cons.prems obtain aw1 where 1: "rep_loop env itr c 0 aw = Some (Inr aw1)"
      and 2: "cond_loop env itr conds aw1 = Some (Inr aw')"
    by (auto split: option.splits sum.splits)
  from rep_loop_count [OF 1]
  have "length (samples (fst aw1)) = length (samples (fst aw)) + cond_repeats env" by simp
  with Cons.IH [OF 2] show ?case by simp
qed

lemma rep_loop_retries:
  assumes "rep < cond_repeats env"
    and "\<forall>k<K. \<exists>r. attempt env itr cond rep (retry_world env itr cond rep w k) = Inr r
            \<and> \<not> tr_good r"
  shows "rep_loop env itr cond rep (a, w) =
     rep_loop env itr cond rep
       (a\<lparr>warnings := warnings a + K\<rparr>, retry_world env itr cond rep w K)"
  using assms(2)
proof (induction K)
  case 0
  then show ?case by simp
next
  case (Suc K)
  then have "rep_loop env itr cond rep (a, w) =
     rep_loop env itr cond rep
       (a\<lparr>warnings := warnings a + K\<rparr>, retry_world env itr cond rep w K)"
    by simp
  moreover from Suc.prems obtain r
    where r: "attempt env itr cond rep (retry_world env itr cond rep w K) = Inr r" "\<not> tr_good r"
    by blast
  moreover have "rep_loop env itr cond rep
       (a\<lparr>warnings := warnings a + K\<rparr>, retry_world env itr cond rep w K) =
     rep_loop env itr cond rep
       (a\<lparr>warnings := warnings a + K\<rparr>\<lparr>warnings :=
            warnings (a\<lparr>warnings := warnings a + K\<rparr>) + 1\<rparr>, tr_world r)"
    using assms(1) r by (rule rep_loop_reject)
  ultimately show ?case using r by simp
qed

lemma run_itr_Inr:
  assumes "run_itr env itr d w = Some (Inr res)"
  shows "\<exists>w'. cond_loop env itr [0..<cond_length env]
            (\<lparr>samples = [], world_infos = [], mpc_infos = [], warnings = 0\<rparr>,
             conditions_reset env w) = Some (Inr (collected res, w'))
          \<and> disks res = persist itr (collected res) d
          \<and> world_after res = reset_world env itr 0 0 w'"
  using assms by (auto simp: run_itr_def split: option.splits sum.splits)

lemma persist_last:
  "samples_file (last (persist itr a d)) itr = Some (samples a)"
  by (simp add: persist_def Let_def itr_save_samples_def itr_save_worlds_def
      itr_save_mpcs_def)

subsection \<open>Rejected rollouts and the size of the record (C6)\<close>

text \<open>
  C6. In the repetition loop a rollout rejected by the quality gate is not appended and
  the same (condition, repetition) slot is tried again, \<open>rep\<close> unchanged; an iteration
  that returns has collected, and written to its samples file, exactly
  \<open>conditions.length * repeats\<close> samples; and when the gate rejects the first \<open>K\<close>
  rollouts of a slot and accepts the next, the loop retries \<open>K\<close> times (\<open>K\<close> warnings),
  appends the sample of rollout \<open>K + 1\<close> and only then moves to \<open>rep + 1\<close>.
\<close>

theorem iteration_sample_count:
  "(rep < cond_repeats env \<and> attempt env itr cond rep w = Inr r1 \<and> \<not> tr_good r1 \<longrightarrow>
      rep_loop env itr cond rep (a, w) =
        rep_loop env itr cond rep (a\<lparr>warnings := warnings a + 1\<rparr>, tr_world r1))
   \<and> (run_itr env itr d w0 = Some (Inr res) \<longrightarrow>
        length (samples (collected res)) = cond_length env * cond_repeats env
        \<and> samples_file (last (disks res)) itr = Some (samples (collected res)))
   \<and> (rep < cond_repeats env
        \<and> (\<forall>k<K. \<exists>r'. attempt env itr cond rep (retry_world env itr cond rep w k) = Inr r'
                    \<and> \<not> tr_good r')
        \<and> attempt env itr cond rep (retry_world env itr cond rep w K) = Inr r
        \<and> tr_good r \<and> isfinite env (tr_sample r) \<longrightarrow>
        rep_loop env itr cond rep (a, w) =
          rep_loop env itr cond (rep + 1)
            (a\<lparr>samples := samples a @ [tr_sample r],
               world_infos := world_infos a @ [tr_world_info r],
               mpc_infos := mpc_infos a @ [tr_mpc_info r],
               warnings := warnings a + K\<rparr>, tr_world r))"
proof (intro conjI impI)
  assume "rep < cond_repeats env \<and> attempt env itr cond rep w = Inr r1 \<and> \<not> tr_good r1"
  then show "rep_loop env itr cond rep (a, w) =
        rep_loop env itr cond rep (a\<lparr>warnings := warnings a + 1\<rparr>, tr_world r1)"
    by (intro rep_loop_reject) simp_all
next
  assume run: "run_itr env itr d w0 = Some (Inr res)"
  from run_itr_Inr [OF run] obtain w' where
    cl: "cond_loop env itr [0..<cond_length env]
            (\<lparr>samples = [], world_infos = [], mpc_infos = [], warnings = 0\<rparr>,
             conditions_reset env w0) = Some (Inr (collected res, w'))"
    and dk: "disks res = persist itr (collected res) d"
    by blast
  from cond_loop_count [OF cl]
  show "length (samples (collected res)) = cond_length env * cond_repeats env" by simp
  show "samples_file (last (disks res)) itr = Some (samples (collected res))"
    unfolding dk by (rule persist_last)
next
  assume a: "rep < cond_repeats env
        \<and> (\<forall>k<K. \<exists>r'. attempt env itr cond rep (retry_world env itr cond rep w k) = Inr r'
                    \<and> \<not> tr_good r')
        \<and> attempt env itr cond rep (retry_world env itr cond rep w K) = Inr r
        \<and> tr_good r \<and> isfinite env (tr_sample r)"
  then have "rep_loop env itr cond rep (a, w) =
     rep_loop env itr cond rep
       (a\<lparr>warnings := warnings a + K\<rparr>, retry_world env itr cond rep w K)"
    by (intro rep_loop_retries) simp_all
  also have "\<dots> = rep_loop env itr cond (rep + 1)
       (a\<lparr>warnings := warnings a + K\<rparr>\<lparr>samples := samples (a\<lparr>warnings := warnings a + K\<rparr>) @ [tr_sample r],
          world_infos := world_infos (a\<lparr>warnings := warnings a + K\<rparr>) @ [tr_world_info r],
          mpc_infos := mpc_infos (a\<lparr>warnings := warnings a + K\<rparr>) @ [tr_mpc_info r]\<rparr>, tr_world r)"
    using a by (intro rep_loop_accept) simp_all
  finally show "rep_loop env itr cond rep (a, w) =
          rep_loop env itr cond (rep + 1)
            (a\<lparr>samples := samples a @ [tr_sample r],
               world_infos := world_infos a @ [tr_world_info r],
               mpc_infos := mpc_infos a @ [tr_mpc_info r],
               warnings := warnings a + K\<rparr>, tr_world r)"
    by (cases a) simp
qed

subsection \<open>The finiteness assertion (C7)\<close>

text \<open>
  C7. A rollout accepted by the quality gate is appended and checked for finiteness at
  once, before \<open>rep\<close> advances: when the check fails the loop ends in
  \<open>AssertionError\<close>, which ends the iteration too, and the slot is not retried. A
  rejected rollout leads to the retry whatever its values are: the check is not made.
\<close>

theorem accepted_sample_finite_check:
  "(rep < cond_repeats env \<and> attempt env itr cond rep w = Inr r \<longrightarrow>
      rep_loop env itr cond rep (a, w) =
        (if \<not> tr_good r
         then rep_loop env itr cond rep (a\<lparr>warnings := warnings a + 1\<rparr>, tr_world r)
         else if \<not> isfinite env (tr_sample r) then Some (Inl AssertionError)
         else rep_loop env itr cond (rep + 1)
                (a\<lparr>samples := samples a @ [tr_sample r],
                   world_infos := world_infos a @ [tr_world_info r],
                   mpc_infos := mpc_infos a @ [tr_mpc_info r]\<rparr>, tr_world r)))
   \<and> (0 < cond_length env \<and> 0 < cond_repeats env
        \<and> attempt env itr 0 0 (conditions_reset env w0) = Inr r0
        \<and> tr_good r0 \<and> \<not> isfinite env (tr_sample r0) \<longrightarrow>
        run_itr env itr d w0 = Some (Inl AssertionError))"
proof (intro conjI impI)
  assume "rep < cond_repeats env \<and> attempt env itr cond rep w = Inr r"
  then show "rep_loop env itr cond rep (a, w) =
        (if \<not> tr_good r
         then rep_loop env itr cond rep (a\<lparr>warnings := warnings a + 1\<rparr>, tr_world r)
         else if \<not> isfinite env (tr_sample r) then Some (Inl AssertionError)
         else rep_loop env itr cond (rep + 1)
                (a\<lparr>samples := samples a @ [tr_sample r],
                   world_infos := world_infos a @ [tr_world_info r],
                   mpc_infos := mpc_infos a @ [tr_mpc_info r]\<rparr>, tr_world r))"
    by (simp add: rep_loop_reject rep_loop_abort rep_loop_accept)
next
  assume a: "0 < cond_length env \<and> 0 < cond_repeats env
        \<and> attempt env itr 0 0 (conditions_reset env w0) = Inr r0
        \<and> tr_good r0 \<and> \<not> isfinite env (tr_sample r0)"
  then have "rep_loop env itr 0 0
      (\<lparr>samples = [], world_infos = [], mpc_infos = [], warnings = 0\<rparr>, conditions_reset env w0)
      = Some (Inl AssertionError)"
    using rep_loop_abort [of 0 env itr 0 "conditions_reset env w0" r0] by blast
  moreover from a have "[0..<cond_length env] = 0 # [1..<cond_length env]"
    by (simp add: upt_conv_Cons)
  ultimately show "run_itr env itr d w0 = Some (Inl AssertionError)"
    by (simp add: run_itr_def)
qed

subsection \<open>Writing the iteration record (C8)\<close>

text \<open>
  C8 (as amended). An iteration writes its record only when all its conditions and
  repetitions have completed (an iteration that does not complete writes nothing), and
  it writes it in three steps, not as one unit: first the samples file, then the world
  metadata, then the controller metadata. On a run directory that held neither metadata
  file of the iteration, the samples file is there without the two others after the
  first write and without the controller metadata after the second; all three are there
  after the third.
\<close>

theorem iteration_record_writes:
  "(run_itr env itr d w = Some (Inr res) \<longrightarrow>
     (\<exists>w'. cond_loop env itr [0..<cond_length env]
            (\<lparr>samples = [], world_infos = [], mpc_infos = [], warnings = 0\<rparr>,
             conditions_reset env w) = Some (Inr (collected res, w')))
     \<and> disks res =
         [d\<lparr>samples_file := (samples_file d)(itr \<mapsto> samples (collected res))\<rparr>,
          d\<lparr>samples_file := (samples_file d)(itr \<mapsto> samples (collected res)),
            worlds_file := (worlds_file d)(itr \<mapsto> world_infos (collected res))\<rparr>,
          d\<lparr>samples_file := (samples_file d)(itr \<mapsto> samples (collected res)),
            worlds_file := (worlds_file d)(itr \<mapsto> world_infos (collected res)),
            mpcs_file := (mpcs_file d)(itr \<mapsto> mpc_infos (collected res))\<rparr>]
     \<and> (worlds_file d itr = None \<and> mpcs_file d itr = None \<longrightarrow>
          samples_file (disks res ! 0) itr = Some (samples (collected res))
          \<and> worlds_file (disks res ! 0) itr = None
          \<and> mpcs_file (disks res ! 0) itr = None
          \<and> samples_file (disks res ! 1) itr = Some (samples (collected res))
          \<and> worlds_file (disks res ! 1) itr = Some (world_infos (collected res))
          \<and> mpcs_file (disks res ! 1) itr = None
          \<and> samples_file (disks res ! 2) itr = Some (samples (collected res))
          \<and> worlds_file (disks res ! 2) itr = Some (world_infos (collected res))
          \<and> mpcs_file (disks res ! 2) itr = Some (mpc_infos (collected res))))
   \<and> ((\<forall>res'. run_itr env itr d w \<noteq> Some (Inr res')) \<longrightarrow>
        itr_disks (run_itr env itr d w) = [])"
proof -
  have 1: "(\<exists>w'. cond_loop env itr [0..<cond_length env]
            (\<lparr>samples = [], world_infos = [], mpc_infos = [], warnings = 0\<rparr>,
             conditions_reset env w) = Some (Inr (collected res, w')))
     \<and> disks res =
         [d\<lparr>samples_file := (samples_file d)(itr \<mapsto> samples (collected res))\<rparr>,
          d\<lparr>samples_file := (samples_file d)(itr \<mapsto> samples (collected res)),
            worlds_file := (worlds_file d)(itr \<mapsto> world_infos (collected res))\<rparr>,
          d\<lparr>samples_file := (samples_file d)(itr \<mapsto> samples (collected res)),
            worlds_file := (worlds_file d)(itr \<mapsto> world_infos (collected res)),
            mpcs_file := (mpcs_file d)(itr \<mapsto> mpc_infos (collected res))\<rparr>]"
    if run: "run_itr env itr d w = Some (Inr res)"
  proof -
    from run_itr_Inr [OF run] obtain w' where
      cl: "cond_loop env itr [0..<cond_length env]
            (\<lparr>samples = [], world_infos = [], mpc_infos = [], warnings = 0\<rparr>,
             conditions_reset env w) = Some (Inr (collected res, w'))"
      and dk: "disks res = persist itr (collected res) d"
      by blast
    have "disks res =
         [d\<lparr>samples_file := (samples_file d)(itr \<mapsto> samples (collected res))\<rparr>,
          d\<lparr>samples_file := (samples_file d)(itr \<mapsto> samples (collected res)),
            worlds_file := (worlds_file d)(itr \<mapsto> world_infos (collected res))\<rparr>,
          d\<lparr>samples_file := (samples_file d)(itr \<mapsto> samples (collected res)),
            worlds_file := (worlds_file d)(itr \<mapsto> world_infos (collected res)),
            mpcs_file := (mpcs_file d)(itr \<mapsto> mpc_infos (collected res))\<rparr>]"
      unfolding dk
      by (simp add: persist_def Let_def itr_save_samples_def itr_save_worlds_def
          itr_save_mpcs_def)
    with cl show ?thesis by (intro conjI exI [of _ w'])
  qed
  have 2: "samples_file (disks res ! 0) itr = Some (samples (collected res))
          \<and> worlds_file (disks res ! 0) itr = None
          \<and> mpcs_file (disks res ! 0) itr = None
          \<and> samples_file (disks res ! 1) itr = Some (samples (collected res))
          \<and> worlds_file (disks res ! 1) itr = Some (world_infos (collected res))
          \<and> mpcs_file (disks res ! 1) itr = None
          \<and> samples_file (disks res ! 2) itr = Some (samples (collected res))
          \<and> worlds_file (disks res ! 2) itr = Some (world_infos (collected res))
          \<and> mpcs_file (disks res ! 2) itr = Some (mpc_infos (collected res))"
    if run: "run_itr env itr d w = Some (Inr res)"
      and none: "worlds_file d itr = None \<and> mpcs_file d itr = None"
  proof -
    from run_itr_Inr [OF run] have dk: "disks res = persist itr (collected res) d"
      by blast
    show ?thesis
      unfolding dk using none
      by (simp add: persist_def Let_def itr_save_samples_def itr_save_worlds_def
          itr_save_mpcs_def)
  qed
  have 3: "itr_disks (run_itr env itr d w) = []"
    if "\<forall>res'. run_itr env itr d w \<noteq> Some (Inr res')"
    using that by (auto simp: itr_disks_def split: option.splits sum.splits)
  show ?thesis
  proof (rule conjI)
    show "run_itr env itr d w = Some (Inr res) \<longrightarrow>
     (\<exists>w'. cond_loop env itr [0..<cond_length env]
            (\<lparr>samples = [], world_infos = [], mpc_infos = [], warnings = 0\<rparr>,
             conditions_reset env w) = Some (Inr (collected res, w')))
     \<and> disks res =
         [d\<lparr>samples_file := (samples_file d)(itr \<mapsto> samples (collected res))\<rparr>,
          d\<lparr>samples_file := (samples_file d)(itr \<mapsto> samples (collected res)),
            worlds_file := (worlds_file d)(itr \<mapsto> world_infos (collected res))\<rparr>,
          d\<lparr>samples_file := (samples_file d)(itr \<mapsto> samples (collected res)),
            worlds_file := (worlds_file d)(itr \<mapsto> world_infos (collected res)),
            mpcs_file := (mpcs_file d)(itr \<mapsto> mpc_infos (collected res))\<rparr>]
     \<and> (worlds_file d itr = None \<and> mpcs_file d itr = None \<longrightarrow>
          samples_file (disks res ! 0) itr = Some (samples (collected res))
          \<and> worlds_file (disks res ! 0) itr = None
          \<and> mpcs_file (disks res ! 0) itr = None
          \<and> samples_file (disks res ! 1) itr = Some (samples (collected res))
          \<and> worlds_file (disks res ! 1) itr = Some (world_infos (collected res))
          \<and> mpcs_file (disks res ! 1) itr = None
          \<and> samples_file (disks res ! 2) itr = Some (samples (collected res))
          \<and> worlds_file (disks res ! 2) itr = Some (world_infos (collected res))
          \<and> mpcs_file (disks res ! 2) itr = Some (mpc_infos (collected res)))"
    proof
      assume run: "run_itr env itr d w = Some (Inr res)"
      from 1 [OF run] 2 [OF run] show "(\<exists>w'. cond_loop env itr [0..<cond_length env]
            (\<lparr>samples = [], world_infos = [], mpc_infos = [], warnings = 0\<rparr>,
             conditions_reset env w) = Some (Inr (collected res, w')))
     \<and> disks res =
         [d\<lparr>samples_file := (samples_file d)(itr \<mapsto> samples (collected res))\<rparr>,
          d\<lparr>samples_file := (samples_file d)(itr \<mapsto> samples (collected res)),
            worlds_file := (worlds_file d)(itr \<mapsto> world_infos (collected res))\<rparr>,
          d\<lparr>samples_file := (samples_file d)(itr \<mapsto> samples (collected res)),
            worlds_file := (worlds_file d)(itr \<mapsto> world_infos (collected res)),
            mpcs_file := (mpcs_file d)(itr \<mapsto> mpc_infos (collected res))\<rparr>]
     \<and> (worlds_file d itr = None \<and> mpcs_file d itr = None \<longrightarrow>
          samples_file (disks res ! 0) itr = Some (samples (collected res))
          \<and> worlds_file (disks res ! 0) itr = None
          \<and> mpcs_file (disks res ! 0) itr = None
          \<and> samples_file (disks res ! 1) itr = Some (samples (collected res))
          \<and> worlds_file (disks res ! 1) itr = Some (world_infos (collected res))
          \<and> mpcs_file (disks res ! 1) itr = None
          \<and> samples_file (disks res ! 2) itr = Some (samples (collected res))
          \<and> worlds_file (disks res ! 2) itr = Some (world_infos (collected res))
          \<and> mpcs_file (disks res ! 2) itr = Some (mpc_infos (collected res)))"
        by blast
    qed
    show "(\<forall>res'. run_itr env itr d w \<noteq> Some (Inr res')) \<longrightarrow>
        itr_disks (run_itr env itr d w) = []"
      using 3 by blast
  qed
qed

lemma itr_collected_Some:
  assumes "itr_collected r = Some a"
  shows "\<exists>res. r = Some (Inr res) \<and> collected res = a"
  using assms by (auto simp: itr_collected_def split: option.splits sum.splits)

lemma demo_attempts:
  "attempt demo_env 0 0 0 (retry_world demo_env 0 0 0 0 0) =
     Inr \<lparr>tr_sample = \<lparr>sX = [0, 11, 22], sU = [10, 10, 10], sO = [100, 111, 122]\<rparr>,
          tr_t = 2, tr_world_info = 0, tr_mpc_info = 0, tr_good = False, tr_world = 1\<rparr>"
  "attempt demo_env 0 0 0 (retry_world demo_env 0 0 0 0 1) =
     Inr \<lparr>tr_sample = \<lparr>sX = [1, 12, 23], sU = [10, 10, 10], sO = [101, 112, 123]\<rparr>,
          tr_t = 2, tr_world_info = 1, tr_mpc_info = 1, tr_good = False, tr_world = 2\<rparr>"
  "attempt demo_env 0 0 0 (retry_world demo_env 0 0 0 0 2) =
     Inr \<lparr>tr_sample = \<lparr>sX = [2, 13, 24], sU = [10, 10, 10], sO = [102, 113, 124]\<rparr>,
          tr_t = 2, tr_world_info = 2, tr_mpc_info = 2, tr_good = True, tr_world = 3\<rparr>"
  by code_simp+

lemma demo_collected:
  "itr_collected (run_itr demo_env 0 empty_disk 0) =
     Some \<lparr>samples = [\<lparr>sX = [2, 13, 24], sU = [10, 10, 10], sO = [102, 113, 124]\<rparr>,
                       \<lparr>sX = [6, 17, 28], sU = [10, 10, 10], sO = [106, 117, 128]\<rparr>],
           world_infos = [2, 5], mpc_infos = [2, 5], warnings = 4\<rparr>"
  by code_simp

text \<open>
  The theorem on the small world, whose gate rejects two rollouts of every slot: the
  first slot ends with the third rollout, the iteration with two samples.
\<close>

theorem iteration_sample_count_witness:
  "(0::nat) < cond_repeats demo_env
   \<and> attempt demo_env 0 0 0 0 =
     Inr \<lparr>tr_sample = \<lparr>sX = [0, 11, 22], sU = [10, 10, 10], sO = [100, 111, 122]\<rparr>,
          tr_t = 2, tr_world_info = 0, tr_mpc_info = 0, tr_good = False, tr_world = 1\<rparr>
   \<and> rep_loop demo_env 0 0 0 (empty_acc, 0) =
       rep_loop demo_env 0 0 0
         (\<lparr>samples = [], world_infos = [], mpc_infos = [], warnings = 1\<rparr>, 1)
   \<and> itr_collected (run_itr demo_env 0 empty_disk 0) =
     Some \<lparr>samples = [\<lparr>sX = [2, 13, 24], sU = [10, 10, 10], sO = [102, 113, 124]\<rparr>,
                       \<lparr>sX = [6, 17, 28], sU = [10, 10, 10], sO = [106, 117, 128]\<rparr>],
           world_infos = [2, 5], mpc_infos = [2, 5], warnings = 4\<rparr>
   \<and> length [\<lparr>sX = [2, 13, 24], sU = [10, 10, 10], sO = [102, 113, 124]\<rparr>,
              \<lparr>sX = [6::int, 17, 28], sU = [10::int, 10, 10], sO = [106::int, 117, 128]\<rparr>]
       = cond_length demo_env * cond_repeats demo_env
   \<and> attempt demo_env 0 0 0 (retry_world demo_env 0 0 0 0 2) =
     Inr \<lparr>tr_sample = \<lparr>sX = [2, 13, 24], sU = [10, 10, 10], sO = [102, 113, 124]\<rparr>,
          tr_t = 2, tr_world_info = 2, tr_mpc_info = 2, tr_good = True, tr_world = 3\<rparr>
   \<and> rep_loop demo_env 0 0 0 (empty_acc, 0) =
       Some (Inr (\<lparr>samples = [\<lparr>sX = [2, 13, 24], sU = [10, 10, 10], sO = [102, 113, 124]\<rparr>],
                   world_infos = [2], mpc_infos = [2], warnings = 2\<rparr>, 3))"
proof -
  note inst = iteration_sample_count [where env = demo_env and itr = 0 and cond = 0 and rep = 0
      and w = 0 and a = empty_acc and K = 2 and d = empty_disk and ?w0.0 = 0]
  have reps: "(0::nat) < cond_repeats demo_env" by code_simp
  have a0: "attempt demo_env 0 0 0 0 =
     Inr \<lparr>tr_sample = \<lparr>sX = [0, 11, 22], sU = [10, 10, 10], sO = [100, 111, 122]\<rparr>,
          tr_t = 2, tr_world_info = 0, tr_mpc_info = 0, tr_good = False, tr_world = 1\<rparr>"
    using demo_attempts(1) by simp
  have 1: "rep_loop demo_env 0 0 0 (empty_acc, 0) =
       rep_loop demo_env 0 0 0
         (\<lparr>samples = [], world_infos = [], mpc_infos = [], warnings = 1\<rparr>, 1)"
    using inst [THEN conjunct1, rule_format, OF conjI [OF reps conjI [OF a0]]]
    by (simp add: empty_acc_def)
  from itr_collected_Some [OF demo_collected] obtain res
    where res: "run_itr demo_env 0 empty_disk 0 = Some (Inr res)"
      "collected res = \<lparr>samples = [\<lparr>sX = [2, 13, 24], sU = [10, 10, 10], sO = [102, 113, 124]\<rparr>,
                       \<lparr>sX = [6, 17, 28], sU = [10, 10, 10], sO = [106, 117, 128]\<rparr>],
           world_infos = [2, 5], mpc_infos = [2, 5], warnings = 4\<rparr>"
    by blast
  have 2: "length [\<lparr>sX = [2, 13, 24], sU = [10, 10, 10], sO = [102, 113, 124]\<rparr>,
              \<lparr>sX = [6::int, 17, 28], sU = [10::int, 10, 10], sO = [106::int, 117, 128]\<rparr>]
       = cond_length demo_env * cond_repeats demo_env"
    using inst [THEN conjunct2, THEN conjunct1, rule_format, OF res(1)] res(2) by simp
  have rej: "\<forall>k<2. \<exists>r'. attempt demo_env 0 0 0 (retry_world demo_env 0 0 0 0 k) = Inr r'
      \<and> \<not> tr_good r'"
    using demo_attempts(1,2) by (auto simp: less_2_cases_iff simp del: retry_world.simps)
  have fin: "isfinite demo_env \<lparr>sX = [2, 13, 24], sU = [10, 10, 10], sO = [102, 113, 124]\<rparr>"
    by code_simp
  have "rep_loop demo_env 0 0 0 (empty_acc, 0) =
      rep_loop demo_env 0 0 (0 + 1)
        (\<lparr>samples = [\<lparr>sX = [2, 13, 24], sU = [10, 10, 10], sO = [102, 113, 124]\<rparr>],
          world_infos = [2], mpc_infos = [2], warnings = 2\<rparr>, 3)"
    using inst [THEN conjunct2, THEN conjunct2, rule_format,
        OF conjI [OF reps conjI [OF rej conjI [OF demo_attempts(3)]]]] fin
    by (simp add: empty_acc_def numeral_2_eq_2)
  also have "\<dots> = Some (Inr
        (\<lparr>samples = [\<lparr>sX = [2, 13, 24], sU = [10, 10, 10], sO = [102, 113, 124]\<rparr>],
          world_infos = [2], mpc_infos = [2], warnings = 2\<rparr>, 3))"
    by (rule rep_loop_exit) (simp add: demo_env_def)
  finally have 3: "rep_loop demo_env 0 0 0 (empty_acc, 0) =
       Some (Inr (\<lparr>samples = [\<lparr>sX = [2, 13, 24], sU = [10, 10, 10], sO = [102, 113, 124]\<rparr>],
                   world_infos = [2], mpc_infos = [2], warnings = 2\<rparr>, 3))" .
  show ?thesis by (intro conjI reps a0 1 demo_collected 2 demo_attempts(3) 3)
qed


lemma demo_nan_attempts:
  "attempt demo_nan 0 0 0 2 =
     Inr \<lparr>tr_sample = \<lparr>sX = [2, 13, 24], sU = [10, 10, 10], sO = [102, 113, 124]\<rparr>,
          tr_t = 2, tr_world_info = 2, tr_mpc_info = 2, tr_good = True, tr_world = 3\<rparr>"
  "attempt demo_nan 0 0 0 0 =
     Inr \<lparr>tr_sample = \<lparr>sX = [0, 11, 22], sU = [10, 10, 10], sO = [100, 111, 122]\<rparr>,
          tr_t = 2, tr_world_info = 0, tr_mpc_info = 0, tr_good = False, tr_world = 1\<rparr>"
  "attempt demo_nan 0 0 0 (conditions_reset demo_nan 2) =
     Inr \<lparr>tr_sample = \<lparr>sX = [2, 13, 24], sU = [10, 10, 10], sO = [102, 113, 124]\<rparr>,
          tr_t = 2, tr_world_info = 2, tr_mpc_info = 2, tr_good = True, tr_world = 3\<rparr>"
  by code_simp+

text \<open>
  The theorem on the small world with a finiteness test that always fails: an accepted
  rollout aborts, a rejected one is retried.
\<close>

theorem accepted_sample_finite_check_witness:
  "(0::nat) < cond_repeats demo_nan \<and> 0 < cond_length demo_nan
   \<and> attempt demo_nan 0 0 0 2 =
     Inr \<lparr>tr_sample = \<lparr>sX = [2, 13, 24], sU = [10, 10, 10], sO = [102, 113, 124]\<rparr>,
          tr_t = 2, tr_world_info = 2, tr_mpc_info = 2, tr_good = True, tr_world = 3\<rparr>
   \<and> \<not> isfinite demo_nan \<lparr>sX = [2, 13, 24], sU = [10, 10, 10], sO = [102, 113, 124]\<rparr>
   \<and> rep_loop demo_nan 0 0 0 (empty_acc, 2) = Some (Inl AssertionError)
   \<and> attempt demo_nan 0 0 0 0 =
     Inr \<lparr>tr_sample = \<lparr>sX = [0, 11, 22], sU = [10, 10, 10], sO = [100, 111, 122]\<rparr>,
          tr_t = 2, tr_world_info = 0, tr_mpc_info = 0, tr_good = False, tr_world = 1\<rparr>
   \<and> \<not> isfinite demo_nan \<lparr>sX = [0, 11, 22], sU = [10, 10, 10], sO = [100, 111, 122]\<rparr>
   \<and> rep_loop demo_nan 0 0 0 (empty_acc, 0) =
       rep_loop demo_nan 0 0 0
         (\<lparr>samples = [], world_infos = [], mpc_infos = [], warnings = 1\<rparr>, 1)
   \<and> run_itr demo_nan 0 empty_disk 2 = Some (Inl AssertionError)"
proof -
  have reps: "(0::nat) < cond_repeats demo_nan" and len: "0 < cond_length demo_nan"
    by code_simp+
  have nf: "\<not> isfinite demo_nan \<lparr>sX = [2, 13, 24], sU = [10, 10, 10], sO = [102, 113, 124]\<rparr>"
    "\<not> isfinite demo_nan \<lparr>sX = [0, 11, 22], sU = [10, 10, 10], sO = [100, 111, 122]\<rparr>"
    by (simp_all add: demo_nan_def)
  have 1: "rep_loop demo_nan 0 0 0 (empty_acc, 2) = Some (Inl AssertionError)"
    using accepted_sample_finite_check [where env = demo_nan and a = empty_acc,
        THEN conjunct1, rule_format, OF conjI [OF reps demo_nan_attempts(1)]] nf(1)
    by simp
  have 2: "rep_loop demo_nan 0 0 0 (empty_acc, 0) =
       rep_loop demo_nan 0 0 0
         (\<lparr>samples = [], world_infos = [], mpc_infos = [], warnings = 1\<rparr>, 1)"
    using accepted_sample_finite_check [where env = demo_nan and a = empty_acc,
        THEN conjunct1, rule_format, OF conjI [OF reps demo_nan_attempts(2)]]
    by (simp add: empty_acc_def)
  have g: "tr_good \<lparr>tr_sample = \<lparr>sX = [2::int, 13, 24], sU = [10::int, 10, 10],
            sO = [102::int, 113, 124]\<rparr>,
          tr_t = 2, tr_world_info = 2::nat, tr_mpc_info = 2, tr_good = True, tr_world = 3::nat\<rparr>"
    by simp
  have nf': "\<not> isfinite demo_nan (tr_sample \<lparr>tr_sample = \<lparr>sX = [2::int, 13, 24],
            sU = [10::int, 10, 10], sO = [102::int, 113, 124]\<rparr>,
          tr_t = 2, tr_world_info = 2::nat, tr_mpc_info = 2, tr_good = True, tr_world = 3::nat\<rparr>)"
    using nf(1) by simp
  have 3: "run_itr demo_nan 0 empty_disk 2 = Some (Inl AssertionError)"
    by (rule accepted_sample_finite_check [where env = demo_nan,
        THEN conjunct2, rule_format,
        OF conjI [OF len conjI [OF reps conjI [OF demo_nan_attempts(3) conjI [OF g nf']]]]])
  show ?thesis by (intro conjI reps len demo_nan_attempts(1,2) nf 1 2 3)
qed

lemma itr_disks_Inr: "r = Some (Inr res) \<Longrightarrow> itr_disks r = disks res"
  by (simp add: itr_disks_def)

text \<open>The theorem on iteration 0 of the small world, on an empty run directory.\<close>

theorem iteration_record_writes_witness:
  "itr_collected (run_itr demo_env 0 empty_disk 0) =
     Some \<lparr>samples = [\<lparr>sX = [2, 13, 24], sU = [10, 10, 10], sO = [102, 113, 124]\<rparr>,
                       \<lparr>sX = [6, 17, 28], sU = [10, 10, 10], sO = [106, 117, 128]\<rparr>],
           world_infos = [2, 5], mpc_infos = [2, 5], warnings = 4\<rparr>
   \<and> worlds_file (empty_disk :: (int, int, int, nat) disk) 0 = None
   \<and> mpcs_file (empty_disk :: (int, int, int, nat) disk) 0 = None
   \<and> length (itr_disks (run_itr demo_env 0 empty_disk 0)) = 3
   \<and> samples_file (itr_disks (run_itr demo_env 0 empty_disk 0) ! 0) 0 =
       Some [\<lparr>sX = [2, 13, 24], sU = [10, 10, 10], sO = [102, 113, 124]\<rparr>,
             \<lparr>sX = [6, 17, 28], sU = [10, 10, 10], sO = [106, 117, 128]\<rparr>]
   \<and> worlds_file (itr_disks (run_itr demo_env 0 empty_disk 0) ! 0) 0 = None
   \<and> mpcs_file (itr_disks (run_itr demo_env 0 empty_disk 0) ! 0) 0 = None
   \<and> worlds_file (itr_disks (run_itr demo_env 0 empty_disk 0) ! 1) 0 = Some [2, 5]
   \<and> mpcs_file (itr_disks (run_itr demo_env 0 empty_disk 0) ! 1) 0 = None
   \<and> samples_file (itr_disks (run_itr demo_env 0 empty_disk 0) ! 2) 0 =
       Some [\<lparr>sX = [2, 13, 24], sU = [10, 10, 10], sO = [102, 113, 124]\<rparr>,
             \<lparr>sX = [6, 17, 28], sU = [10, 10, 10], sO = [106, 117, 128]\<rparr>]
   \<and> worlds_file (itr_disks (run_itr demo_env 0 empty_disk 0) ! 2) 0 = Some [2, 5]
   \<and> mpcs_file (itr_disks (run_itr demo_env 0 empty_disk 0) ! 2) 0 = Some [2, 5]
   \<and> itr_disks (run_itr demo_nan 0 (empty_disk :: (int, int, int, nat) disk) 2) = []"
proof -
  from itr_collected_Some [OF demo_collected] obtain res
    where res: "run_itr demo_env 0 empty_disk 0 = Some (Inr res)"
      "collected res = \<lparr>samples = [\<lparr>sX = [2, 13, 24], sU = [10, 10, 10], sO = [102, 113, 124]\<rparr>,
                       \<lparr>sX = [6, 17, 28], sU = [10, 10, 10], sO = [106, 117, 128]\<rparr>],
           world_infos = [2, 5], mpc_infos = [2, 5], warnings = 4\<rparr>"
    by blast
  have d: "itr_disks (run_itr demo_env 0 empty_disk 0) = disks res"
    using res(1) by (rule itr_disks_Inr)
  have e: "worlds_file (empty_disk :: (int, int, int, nat) disk) 0 = None"
    "mpcs_file (empty_disk :: (int, int, int, nat) disk) 0 = None"
    by (simp_all add: empty_disk_def)
  note inst = iteration_record_writes [where env = demo_env and itr = 0 and d = empty_disk
      and w = 0 and res = res, THEN conjunct1, rule_format, OF res(1)]
  note writes = inst [THEN conjunct2, THEN conjunct1]
  note states = inst [THEN conjunct2, THEN conjunct2, rule_format, OF conjI [OF e]]
  have len: "length (itr_disks (run_itr demo_env 0 empty_disk 0)) = 3"
    unfolding d using writes by simp
  have "case run_itr demo_nan 0 (empty_disk :: (int, int, int, nat) disk) 2 of
      Some (Inl e) \<Rightarrow> e = AssertionError | _ \<Rightarrow> False"
    by code_simp
  then have ab: "run_itr demo_nan 0 (empty_disk :: (int, int, int, nat) disk) 2
      = Some (Inl AssertionError)"
    by (auto split: option.splits sum.splits)
  have no: "itr_disks (run_itr demo_nan 0 (empty_disk :: (int, int, int, nat) disk) 2) = []"
    using iteration_record_writes [where env = demo_nan and itr = 0
        and d = "empty_disk :: (int, int, int, nat) disk" and w = 2, THEN conjunct2]
    unfolding ab by simp
  show ?thesis
    unfolding d using states demo_collected e len no
    by (simp add: res(2) d)
qed

text \<open>
  C8 as stated fails: after the first write of iteration 0 the run directory holds the
  samples file, which is what the resolver looks for, and neither of the other two
  files; after the second write the controller metadata is still missing.
\<close>

theorem iteration_record_counterexample:
  "samples_file (itr_disks (run_itr demo_env 0 empty_disk 0) ! 0) 0 =
     Some [\<lparr>sX = [2, 13, 24], sU = [10, 10, 10], sO = [102, 113, 124]\<rparr>,
           \<lparr>sX = [6, 17, 28], sU = [10, 10, 10], sO = [106, 117, 128]\<rparr>]
   \<and> worlds_file (itr_disks (run_itr demo_env 0 empty_disk 0) ! 0) 0 = None
   \<and> mpcs_file (itr_disks (run_itr demo_env 0 empty_disk 0) ! 0) 0 = None
   \<and> samples_file (itr_disks (run_itr demo_env 0 empty_disk 0) ! 1) 0 =
     Some [\<lparr>sX = [2, 13, 24], sU = [10, 10, 10], sO = [102, 113, 124]\<rparr>,
           \<lparr>sX = [6, 17, 28], sU = [10, 10, 10], sO = [106, 117, 128]\<rparr>]
   \<and> mpcs_file (itr_disks (run_itr demo_env 0 empty_disk 0) ! 1) 0 = None"
  by code_simp

subsection \<open>Waiting for the operator (C9)\<close>

lemma rccar_wait_outcome:
  "rccar_is_good_rollout sim env = Some (r, slept) \<longleftrightarrow>
     (if sim then r = Some True \<and> slept = 0
      else \<exists>n. slept = n * sleep_ms
             \<and> (\<forall>i<n. \<not> is_shutdown (env i) \<and> \<not> decided (env i))
             \<and> (if is_shutdown (env n) then r = None
                 else decided (env n) \<and> r = Some (good_rollout (env n))))"
  by (cases sim) (auto simp: rccar_is_good_rollout_def ros_wait_outcome)

lemma sleep_ms_div: "n * sleep_ms div sleep_ms = n"
  by (simp add: sleep_ms_def)

text \<open>
  C9 (as amended). On hardware the gate returns exactly when the wait reaches a pass
  \<open>n\<close> at which shutdown is signalled or exactly one signal is asserted, no earlier pass
  being such: the shutdown flag and the two signals are read at every pass, a pass with
  both or neither signal asserted gives no verdict and is followed by one sleep of
  100 ms, so \<open>n\<close> sleeps precede pass \<open>n\<close>; the verdict is \<open>True\<close> when "accepted" is
  the asserted signal and \<open>False\<close> when "rejected" is. When shutdown is signalled the
  wait ends instead of waiting on, and the gate returns \<open>None\<close>: not \<open>True\<close>, not
  \<open>False\<close>, and with the truth value of \<open>False\<close>, the reject verdict. In simulation
  the gate returns \<open>True\<close> without waiting.
\<close>

theorem rccar_is_good_rollout_outcome:
  "(rccar_is_good_rollout sim env = Some (r, slept) \<longleftrightarrow>
     (if sim then r = Some True \<and> slept = 0
      else \<exists>n. slept = n * sleep_ms
             \<and> (\<forall>i<n. \<not> is_shutdown (env i) \<and> \<not> decided (env i))
             \<and> (if is_shutdown (env n) then r = None
                 else decided (env n) \<and> r = Some (good_rollout (env n)))))
   \<and> (\<not> sim \<and> rccar_is_good_rollout sim env = Some (r, slept)
        \<and> is_shutdown (env (slept div sleep_ms)) \<longrightarrow>
        r = None \<and> r \<noteq> Some True \<and> r \<noteq> Some False \<and> truthy r = truthy (Some False))"
proof (rule conjI)
  show "rccar_is_good_rollout sim env = Some (r, slept) \<longleftrightarrow>
     (if sim then r = Some True \<and> slept = 0
      else \<exists>n. slept = n * sleep_ms
             \<and> (\<forall>i<n. \<not> is_shutdown (env i) \<and> \<not> decided (env i))
             \<and> (if is_shutdown (env n) then r = None
                 else decided (env n) \<and> r = Some (good_rollout (env n))))"
    by (rule rccar_wait_outcome)
next
  show "\<not> sim \<and> rccar_is_good_rollout sim env = Some (r, slept)
        \<and> is_shutdown (env (slept div sleep_ms)) \<longrightarrow>
        r = None \<and> r \<noteq> Some True \<and> r \<noteq> Some False \<and> truthy r = truthy (Some False)"
  proof
    assume a: "\<not> sim \<and> rccar_is_good_rollout sim env = Some (r, slept)
        \<and> is_shutdown (env (slept div sleep_ms))"
    then have "\<exists>n. slept = n * sleep_ms
             \<and> (\<forall>i<n. \<not> is_shutdown (env i) \<and> \<not> decided (env i))
             \<and> (if is_shutdown (env n) then r = None
                 else decided (env n) \<and> r = Some (good_rollout (env n)))"
      using rccar_wait_outcome [of sim env r slept] by simp
    then obtain n where n: "slept = n * sleep_ms"
        "if is_shutdown (env n) then r = None
         else decided (env n) \<and> r = Some (good_rollout (env n))"
      by blast
    from a n(1) have "is_shutdown (env n)" by (simp add: sleep_ms_div)
    with n(2) have "r = None" by simp
    then show "r = None \<and> r \<noteq> Some True \<and> r \<noteq> Some False \<and> truthy r = truthy (Some False)"
      by (simp add: truthy_def)
  qed
qed

text \<open>
  The theorem on the two environments: "accepted" alone at pass 2 gives \<open>True\<close> after
  two sleeps, shutdown at pass 1 gives \<open>None\<close> after one.
\<close>

theorem rccar_is_good_rollout_outcome_witness:
  "rccar_is_good_rollout False env_accept = Some (Some True, 200)
   \<and> decided (env_accept 2) \<and> \<not> decided (env_accept 0) \<and> \<not> decided (env_accept 1)
   \<and> rccar_is_good_rollout True env_accept = Some (Some True, 0)
   \<and> rccar_is_good_rollout False env_shutdown = Some (None, 100)
   \<and> is_shutdown (env_shutdown (100 div sleep_ms)) \<and> \<not> decided (env_shutdown 0)
   \<and> truthy None = truthy (Some False)"
proof -
  have a: "\<forall>i<2. \<not> is_shutdown (env_accept i) \<and> \<not> decided (env_accept i)"
    by (auto simp: env_accept_def decided_def)
  have 1: "rccar_is_good_rollout False env_accept = Some (Some True, 200)"
    unfolding rccar_is_good_rollout_outcome [THEN conjunct1]
    using a by (simp, intro exI [of _ 2]) (simp add: env_accept_def decided_def sleep_ms_def)
  have 2: "rccar_is_good_rollout True env_accept = Some (Some True, 0)"
    unfolding rccar_is_good_rollout_outcome [THEN conjunct1] by simp
  have 3: "rccar_is_good_rollout False env_shutdown = Some (None, 100)"
    unfolding rccar_is_good_rollout_outcome [THEN conjunct1]
    by (simp, intro exI [of _ 1]) (simp add: env_shutdown_def decided_def sleep_ms_def)
  have s: "is_shutdown (env_shutdown (100 div sleep_ms))"
    by (simp add: env_shutdown_def sleep_ms_def)
  have f: "\<not> False" by simp
  from rccar_is_good_rollout_outcome [where sim = False and env = env_shutdown
      and r = None and slept = 100, THEN conjunct2, rule_format, OF conjI [OF f conjI [OF 3 s]]]
  have 4: "truthy None = truthy (Some False)" by simp
  have d: "decided (env_accept 2)" "\<not> decided (env_accept 0)" "\<not> decided (env_accept 1)"
    "\<not> decided (env_shutdown 0)"
    by (simp_all add: env_accept_def env_shutdown_def decided_def)
  show ?thesis by (intro conjI 1 2 3 4 s d)
qed

lemma demo_hw_attempt:
  "attempt demo_hw 0 0 0 0 =
     Inr \<lparr>tr_sample = \<lparr>sX = [0, 11, 22], sU = [10, 10, 10], sO = [100, 111, 122]\<rparr>,
          tr_t = 2, tr_world_info = 0, tr_mpc_info = 0, tr_good = False, tr_world = 1\<rparr>"
  by code_simp

text \<open>
  C9 as stated fails at shutdown: the gate returns \<open>None\<close>, whose truth value is false,
  and an iteration driver with this gate does not abort: it takes the rollout for a
  rejected one, logs the warning and tries the same slot again.
\<close>

theorem shutdown_is_rejection_counterexample:
  "rccar_is_good_rollout False env_shutdown = Some (None, 100)
   \<and> is_shutdown (env_shutdown 1)
   \<and> \<not> truthy None
   \<and> \<not> hw_gate env_shutdown
   \<and> attempt demo_hw 0 0 0 0 =
     Inr \<lparr>tr_sample = \<lparr>sX = [0, 11, 22], sU = [10, 10, 10], sO = [100, 111, 122]\<rparr>,
          tr_t = 2, tr_world_info = 0, tr_mpc_info = 0, tr_good = False, tr_world = 1\<rparr>
   \<and> rep_loop demo_hw 0 0 0 (empty_acc, 0) =
       rep_loop demo_hw 0 0 0
         (\<lparr>samples = [], world_infos = [], mpc_infos = [], warnings = 1\<rparr>, 1)"
proof -
  have 1: "rccar_is_good_rollout False env_shutdown = Some (None, 100)" by code_simp
  have 2: "is_shutdown (env_shutdown 1)" "\<not> truthy None" "\<not> hw_gate env_shutdown"
    by code_simp+
  have reps: "(0::nat) < cond_repeats demo_hw" by code_simp
  have "rep_loop demo_hw 0 0 0 (empty_acc, 0) =
       rep_loop demo_hw 0 0 0
         (empty_acc\<lparr>warnings := warnings (empty_acc :: (int, int, int, nat) acc) + 1\<rparr>, 1)"
    using rep_loop_reject [OF reps demo_hw_attempt, of empty_acc] by simp
  then have 3: "rep_loop demo_hw 0 0 0 (empty_acc, 0) =
       rep_loop demo_hw 0 0 0
         (\<lparr>samples = [], world_infos = [], mpc_infos = [], warnings = 1\<rparr>, 1)"
    by (simp add: empty_acc_def)
  show ?thesis by (intro conjI 1 2 demo_hw_attempt 3)
qed

subsection \<open>The noise factory\<close>

text \<open>
  The kind is matched in lower case for \<open>ou\<close> and \<open>smoothedgaussian\<close>, but its
  parameters are looked up under the spelling given: \<open>OU\<close> with parameters filed under
  \<open>ou\<close> raises \<open>KeyError\<close>, and an unknown kind raises before the lookup.
\<close>

lemma create_control_noise_examples:
  "create_control_noise ''gaussian'' [''gaussian''] = Inr GaussianNoise
   \<and> create_control_noise ''OU'' [''OU''] = Inr OUNoise
   \<and> create_control_noise ''OU'' [''ou''] = Inl KeyError
   \<and> create_control_noise ''Gaussian'' [''Gaussian''] = Inl ConfigException"
  by code_simp

end
